theory Spec2Isabelle
  imports Complex_Main "HOL-Library.Multiset"
begin

section \<open>Data model of the workout tracker (src/src/App.tsx)\<close>

text \<open>
  The store of the application is the React state of the component \<open>App\<close>: the list
  of training plans, the history and the id of the active plan. Every handler of the
  component is modelled as a function from the state before the event to the state after
  it. JavaScript numbers that hold a weight are modelled as exact reals, so they are finite
  (the code only compares them, takes maxima, adds a step and rounds to one decimal); a
  number that holds a set count is an \<open>int\<close>. Where the code tests for \<open>NaN\<close>, \<open>undefined\<close> or
  \<open>null\<close> the model has an \<open>option\<close> whose \<open>None\<close> is that case. Fresh ids and
  the clock are inputs of the handlers that use them.
\<close>

record Exercise =
  id_ex :: string
  name_ex :: string
  currentWeight :: real
  previousWeight :: "real option"
  bestWeight :: real
  completed :: bool
  notes_ex :: string
  targetSets :: int
  completedSets :: int

record TrainingPlan =
  id_plan :: string
  name_plan :: string
  exercises :: "Exercise list"

record HistoryExercise =
  name_h :: string
  weight :: real
  completedSets_h :: int
  targetSets_h :: int
  isPr :: bool

record TrainingHistoryEntry =
  id_entry :: string
  dateIso :: string
  planId :: string
  planName :: string
  exercises_entry :: "HistoryExercise list"

text \<open>
  The argument of \<open>normalizeExercise\<close>, \<open>Partial<Exercise> & { id; name }\<close>:
  every field but the id and the name may be missing (or \<open>null\<close>) in the stored
  payload.
\<close>

record ExerciseInput =
  id_in :: string
  name_in :: string
  currentWeight_in :: "real option"
  previousWeight_in :: "real option"
  bestWeight_in :: "real option"
  completed_in :: "bool option"
  notes_in :: "string option"
  targetSets_in :: "int option"
  completedSets_in :: "int option"

text \<open>
  A parsed plan of the stored payload; \<open>exercises_in\<close> is \<open>None\<close> when the stored
  value is not an array.
\<close>

record PlanInput =
  id_pin :: string
  name_pin :: string
  exercises_in :: "ExerciseInput list option"

text \<open>The argument \<open>patch\<close> of \<open>updateExerciseMeta\<close>.\<close>

record MetaPatch =
  name_patch :: "string option"
  notes_patch :: "string option"
  targetSets_patch :: "int option"

record AppState =
  plans :: "TrainingPlan list"
  history :: "TrainingHistoryEntry list"
  activePlanId :: string

section \<open>Helpers\<close>

definition clampWeight :: "real \<Rightarrow> real" where
  "clampWeight v = max 0 (min 300 v)"

definition clampInt :: "int \<Rightarrow> int \<Rightarrow> int \<Rightarrow> int" where
  "clampInt v lo hi = max lo (min hi v)"

text \<open>
  \<open>Number(x.toFixed(1))\<close>: the decimal with one fractional digit nearest to \<open>x\<close>,
  a tie going away from zero.
\<close>

definition toFixed1 :: "real \<Rightarrow> real" where
  "toFixed1 x =
     (if x < 0 then - (of_int \<lfloor>(- x) * 10 + 1 / 2\<rfloor> / 10)
      else of_int \<lfloor>x * 10 + 1 / 2\<rfloor> / 10)"

text \<open>
  \<open>String.prototype.trim\<close> removes white space and line terminators at both ends. A
  \<open>char\<close> is a code unit below 256; the code units of that range that \<open>trim\<close>
  removes are the tab, the line feed, the vertical tab, the form feed, the carriage return,
  the space and the no-break space U+00A0.
\<close>

definition isSpace :: "char \<Rightarrow> bool" where
  "isSpace c =
     (c \<in> set [CHR '' '', CHR 0x09, CHR 0x0A, CHR 0x0B, CHR 0x0C, CHR 0x0D, CHR 0xA0])"

definition trim :: "string \<Rightarrow> string" where
  "trim s = rev (dropWhile isSpace (rev (dropWhile isSpace s)))"

text \<open>\<open>Array.prototype.findIndex\<close>: the first index that satisfies the test, or -1.\<close>

fun findIndex :: "('a \<Rightarrow> bool) \<Rightarrow> 'a list \<Rightarrow> int" where
  "findIndex P [] = - 1"
| "findIndex P (x # xs) =
     (if P x then 0 else (let r = findIndex P xs in if r < 0 then - 1 else r + 1))"

text \<open>
  \<open>xs.splice(i, 1)\<close> for an index inside the array removes the element at \<open>i\<close>;
  \<open>xs.splice(i, 0, v)\<close> inserts \<open>v\<close> before index \<open>i\<close> (at the end when \<open>i\<close>
  is the length or more).
\<close>

definition spliceRemove :: "nat \<Rightarrow> 'a list \<Rightarrow> 'a list" where
  "spliceRemove i xs = take i xs @ drop (Suc i) xs"

definition spliceInsert :: "nat \<Rightarrow> 'a \<Rightarrow> 'a list \<Rightarrow> 'a list" where
  "spliceInsert i v xs = take i xs @ v # drop i xs"

section \<open>Loading the persisted state\<close>

definition normalizeExercise :: "ExerciseInput \<Rightarrow> Exercise" where
  "normalizeExercise input =
     (let currentWeight' = (case currentWeight_in input of None \<Rightarrow> 0 | Some w \<Rightarrow> w);
          targetSets' = clampInt (case targetSets_in input of None \<Rightarrow> 3 | Some t \<Rightarrow> t) 1 12;
          completedSets' =
            clampInt (case completedSets_in input of None \<Rightarrow> 0 | Some c \<Rightarrow> c) 0 targetSets'
      in \<lparr> id_ex = id_in input,
           name_ex = name_in input,
           currentWeight = currentWeight',
           previousWeight = previousWeight_in input,
           bestWeight = (case bestWeight_in input of None \<Rightarrow> currentWeight' | Some b \<Rightarrow> b),
           completed =
             (case completed_in input of None \<Rightarrow> completedSets' \<ge> targetSets' | Some c \<Rightarrow> c),
           notes_ex = (case notes_in input of None \<Rightarrow> [] | Some n \<Rightarrow> n),
           targetSets = targetSets',
           completedSets = completedSets' \<rparr>)"

text \<open>
  \<open>loadPlans\<close> and \<open>loadHistory\<close>: the argument is \<open>None\<close> when the slot is
  absent, does not parse or does not hold an array.
\<close>

definition loadPlans :: "PlanInput list option \<Rightarrow> TrainingPlan list" where
  "loadPlans raw =
     (case raw of
        None \<Rightarrow> []
      | Some parsed \<Rightarrow>
          map (\<lambda>plan. \<lparr> id_plan = id_pin plan,
                        name_plan = name_pin plan,
                        exercises =
                          (case exercises_in plan of
                             None \<Rightarrow> []
                           | Some es \<Rightarrow> map normalizeExercise es) \<rparr>) parsed)"

definition loadHistory :: "TrainingHistoryEntry list option \<Rightarrow> TrainingHistoryEntry list" where
  "loadHistory raw = (case raw of None \<Rightarrow> [] | Some parsed \<Rightarrow> parsed)"

text \<open>
  What \<open>JSON.stringify\<close> writes for a plan and \<open>JSON.parse\<close> reads back: every
  field is present, and a \<open>null\<close> previous weight stays \<open>null\<close>.
\<close>

definition storeExercise :: "Exercise \<Rightarrow> ExerciseInput" where
  "storeExercise e =
     \<lparr> id_in = id_ex e, name_in = name_ex e,
       currentWeight_in = Some (currentWeight e),
       previousWeight_in = previousWeight e,
       bestWeight_in = Some (bestWeight e),
       completed_in = Some (completed e),
       notes_in = Some (notes_ex e),
       targetSets_in = Some (targetSets e),
       completedSets_in = Some (completedSets e) \<rparr>"

definition storePlan :: "TrainingPlan \<Rightarrow> PlanInput" where
  "storePlan p =
     \<lparr> id_pin = id_plan p, name_pin = name_plan p,
       exercises_in = Some (map storeExercise (exercises p)) \<rparr>"

section \<open>The handlers of the component\<close>

text \<open>\<open>activePlan\<close>: the first plan whose id is the active one, if any.\<close>

definition activePlan :: "AppState \<Rightarrow> TrainingPlan option" where
  "activePlan s = find (\<lambda>plan. id_plan plan = activePlanId s) (plans s)"

text \<open>
  The effect that repairs the selection after the plans changed: no plan, no selection;
  a selection that names no plan falls back to the first plan.
\<close>

definition syncActivePlanId :: "AppState \<Rightarrow> AppState" where
  "syncActivePlanId s =
     (case plans s of
        [] \<Rightarrow> s\<lparr>activePlanId := []\<rparr>
      | p # ps \<Rightarrow>
          (if list_ex (\<lambda>plan. id_plan plan = activePlanId s) (plans s) then s
           else s\<lparr>activePlanId := id_plan p\<rparr>))"

definition createPlan :: "string \<Rightarrow> string \<Rightarrow> AppState \<Rightarrow> AppState" where
  "createPlan newId planNameInput s =
     (let name = trim planNameInput in
      if name = [] then s
      else s\<lparr>plans := \<lparr> id_plan = newId, name_plan = name, exercises = [] \<rparr> # plans s,
             activePlanId := newId\<rparr>)"

text \<open>
  \<open>parsedWeight\<close> is the result of \<open>Number.parseFloat\<close> on the text of the form
  field, \<open>None\<close> for \<open>NaN\<close>.
\<close>

definition addExercise :: "string \<Rightarrow> string \<Rightarrow> real option \<Rightarrow> AppState \<Rightarrow> AppState" where
  "addExercise newId exerciseName parsedWeight s =
     (case activePlan s of
        None \<Rightarrow> s
      | Some active \<Rightarrow>
          (let name = trim exerciseName in
           case parsedWeight of
             None \<Rightarrow> s
           | Some w \<Rightarrow>
               if name = [] \<or> w < 0 then s
               else
                 (let normalizedWeight = toFixed1 w;
                      newExercise =
                        \<lparr> id_ex = newId, name_ex = name,
                          currentWeight = normalizedWeight,
                          previousWeight = None,
                          bestWeight = normalizedWeight,
                          completed = False,
                          notes_ex = [],
                          targetSets = 3,
                          completedSets = 0 \<rparr>
                  in s\<lparr>plans :=
                         map (\<lambda>plan. if id_plan plan = id_plan active
                                      then plan\<lparr>exercises := exercises plan @ [newExercise]\<rparr>
                                      else plan) (plans s)\<rparr>)))"

definition updateExerciseWeight :: "string \<Rightarrow> real option \<Rightarrow> AppState \<Rightarrow> AppState" where
  "updateExerciseWeight exerciseId parsedWeight s =
     (case parsedWeight of
        None \<Rightarrow> s
      | Some w \<Rightarrow>
          (case activePlan s of
             None \<Rightarrow> s
           | Some active \<Rightarrow>
               if w < 0 then s
               else
                 (let nextWeight = toFixed1 w in
                  s\<lparr>plans :=
                      map (\<lambda>plan.
                            if id_plan plan \<noteq> id_plan active then plan
                            else plan\<lparr>exercises :=
                                   map (\<lambda>exercise.
                                         if id_ex exercise \<noteq> exerciseId then exercise
                                         else if currentWeight exercise = nextWeight then exercise
                                         else exercise\<lparr>previousWeight := Some (currentWeight exercise),
                                                        currentWeight := nextWeight,
                                                        bestWeight := max (bestWeight exercise) nextWeight,
                                                        completed := False\<rparr>)
                                       (exercises plan)\<rparr>)
                          (plans s)\<rparr>)))"

definition changeExerciseByDelta :: "string \<Rightarrow> real \<Rightarrow> AppState \<Rightarrow> AppState" where
  "changeExerciseByDelta exerciseId delta s =
     (case activePlan s of
        None \<Rightarrow> s
      | Some active \<Rightarrow>
          s\<lparr>plans :=
              map (\<lambda>plan.
                    if id_plan plan \<noteq> id_plan active then plan
                    else plan\<lparr>exercises :=
                           map (\<lambda>exercise.
                                 if id_ex exercise \<noteq> exerciseId then exercise
                                 else
                                   (let nextWeight =
                                          clampWeight (toFixed1 (currentWeight exercise + delta))
                                    in if nextWeight = currentWeight exercise then exercise
                                       else exercise\<lparr>previousWeight := Some (currentWeight exercise),
                                                      currentWeight := nextWeight,
                                                      bestWeight := max (bestWeight exercise) nextWeight,
                                                      completed := False\<rparr>))
                               (exercises plan)\<rparr>)
                  (plans s)\<rparr>)"

definition setExerciseCompleted :: "string \<Rightarrow> bool \<Rightarrow> AppState \<Rightarrow> AppState" where
  "setExerciseCompleted exerciseId completed' s =
     (case activePlan s of
        None \<Rightarrow> s
      | Some active \<Rightarrow>
          s\<lparr>plans :=
              map (\<lambda>plan.
                    if id_plan plan \<noteq> id_plan active then plan
                    else plan\<lparr>exercises :=
                           map (\<lambda>exercise.
                                 if id_ex exercise = exerciseId
                                 then exercise\<lparr>completed := completed',
                                               completedSets :=
                                                 (if completed' then targetSets exercise else 0)\<rparr>
                                 else exercise)
                               (exercises plan)\<rparr>)
                  (plans s)\<rparr>)"

definition setExerciseSets :: "string \<Rightarrow> int \<Rightarrow> AppState \<Rightarrow> AppState" where
  "setExerciseSets exerciseId nextCompletedSets s =
     (case activePlan s of
        None \<Rightarrow> s
      | Some active \<Rightarrow>
          s\<lparr>plans :=
              map (\<lambda>plan.
                    if id_plan plan \<noteq> id_plan active then plan
                    else plan\<lparr>exercises :=
                           map (\<lambda>exercise.
                                 if id_ex exercise \<noteq> exerciseId then exercise
                                 else
                                   (let clamped =
                                          clampInt nextCompletedSets 0 (targetSets exercise)
                                    in exercise\<lparr>completedSets := clamped,
                                                 completed := (clamped \<ge> targetSets exercise)\<rparr>))
                               (exercises plan)\<rparr>)
                  (plans s)\<rparr>)"

text \<open>
  In \<open>updateExerciseMeta\<close> the test \<open>patch.targetSets ? ... : ...\<close> takes the old
  target when the patch has none or has 0. The spread of the patch replaces the name and
  the notes that it carries.
\<close>

definition updateExerciseMeta :: "string \<Rightarrow> MetaPatch \<Rightarrow> AppState \<Rightarrow> AppState" where
  "updateExerciseMeta exerciseId patch s =
     (case activePlan s of
        None \<Rightarrow> s
      | Some active \<Rightarrow>
          s\<lparr>plans :=
              map (\<lambda>plan.
                    if id_plan plan \<noteq> id_plan active then plan
                    else plan\<lparr>exercises :=
                           map (\<lambda>exercise.
                                 if id_ex exercise \<noteq> exerciseId then exercise
                                 else
                                   (let targetSets' =
                                          (case targetSets_patch patch of
                                             None \<Rightarrow> targetSets exercise
                                           | Some t \<Rightarrow>
                                               if t = 0 then targetSets exercise
                                               else clampInt t 1 12)
                                    in exercise\<lparr>name_ex :=
                                                   (case name_patch patch of
                                                      None \<Rightarrow> name_ex exercise | Some n \<Rightarrow> n),
                                                 notes_ex :=
                                                   (case notes_patch patch of
                                                      None \<Rightarrow> notes_ex exercise | Some n \<Rightarrow> n),
                                                 targetSets := targetSets',
                                                 completedSets :=
                                                   clampInt (completedSets exercise) 0 targetSets',
                                                 completed :=
                                                   (clampInt (completedSets exercise) 0 targetSets'
                                                      \<ge> targetSets')\<rparr>))
                               (exercises plan)\<rparr>)
                  (plans s)\<rparr>)"

definition deleteExercise :: "string \<Rightarrow> AppState \<Rightarrow> AppState" where
  "deleteExercise exerciseId s =
     (case activePlan s of
        None \<Rightarrow> s
      | Some active \<Rightarrow>
          s\<lparr>plans :=
              map (\<lambda>plan.
                    if id_plan plan = id_plan active
                    then plan\<lparr>exercises :=
                           filter (\<lambda>exercise. id_ex exercise \<noteq> exerciseId) (exercises plan)\<rparr>
                    else plan)
                  (plans s)\<rparr>)"

definition renameActivePlan :: "string \<Rightarrow> AppState \<Rightarrow> AppState" where
  "renameActivePlan planEditName s =
     (case activePlan s of
        None \<Rightarrow> s
      | Some active \<Rightarrow>
          (let nextName = trim planEditName in
           if nextName = [] then s
           else s\<lparr>plans :=
                   map (\<lambda>plan. if id_plan plan = id_plan active
                                then plan\<lparr>name_plan := nextName\<rparr> else plan)
                       (plans s)\<rparr>))"

definition deleteActivePlan :: "AppState \<Rightarrow> AppState" where
  "deleteActivePlan s =
     (case activePlan s of
        None \<Rightarrow> s
      | Some active \<Rightarrow>
          s\<lparr>plans := filter (\<lambda>plan. id_plan plan \<noteq> id_plan active) (plans s)\<rparr>)"

definition moveExercise :: "string \<Rightarrow> string \<Rightarrow> AppState \<Rightarrow> AppState" where
  "moveExercise dragId targetId s =
     (case activePlan s of
        None \<Rightarrow> s
      | Some active \<Rightarrow>
          if dragId = targetId then s
          else
            s\<lparr>plans :=
                map (\<lambda>plan.
                      if id_plan plan \<noteq> id_plan active then plan
                      else
                        (let fromIndex = findIndex (\<lambda>exercise. id_ex exercise = dragId) (exercises plan);
                             toIndex = findIndex (\<lambda>exercise. id_ex exercise = targetId) (exercises plan)
                         in if fromIndex < 0 \<or> toIndex < 0 \<or> fromIndex = toIndex then plan
                            else
                              (let moved = exercises plan ! nat fromIndex;
                                   reordered = spliceRemove (nat fromIndex) (exercises plan)
                               in plan\<lparr>exercises := spliceInsert (nat toIndex) moved reordered\<rparr>)))
                    (plans s)\<rparr>)"

definition isPrOf :: "Exercise \<Rightarrow> bool" where
  "isPrOf exercise =
     (case previousWeight exercise of
        None \<Rightarrow> False
      | Some previous \<Rightarrow>
          currentWeight exercise \<ge> bestWeight exercise \<and> currentWeight exercise > previous)"

definition snapshot :: "Exercise \<Rightarrow> HistoryExercise" where
  "snapshot exercise =
     \<lparr> name_h = name_ex exercise,
       weight = currentWeight exercise,
       completedSets_h = completedSets exercise,
       targetSets_h = targetSets exercise,
       isPr = isPrOf exercise \<rparr>"

definition finishTraining :: "string \<Rightarrow> string \<Rightarrow> AppState \<Rightarrow> AppState" where
  "finishTraining newId nowIso s =
     (case activePlan s of
        None \<Rightarrow> s
      | Some active \<Rightarrow>
          if length (exercises active) = 0 then s
          else
            (let entry =
                   \<lparr> id_entry = newId,
                     dateIso = nowIso,
                     planId = id_plan active,
                     planName = name_plan active,
                     exercises_entry = map snapshot (exercises active) \<rparr>
             in s\<lparr>history := take 40 (entry # history s),
                   plans :=
                     map (\<lambda>plan.
                           if id_plan plan = id_plan active
                           then plan\<lparr>exercises :=
                                  map (\<lambda>exercise. exercise\<lparr>completed := False, completedSets := 0\<rparr>)
                                      (exercises plan)\<rparr>
                           else plan)
                         (plans s)\<rparr>))"

section \<open>The variant without the \<open>completed\<close> flag (src/unnamed/part_001, storage keys v3)\<close>

text \<open>
  This variant of the component stores no \<open>completed\<close> flag and no plan id in a
  history entry, reorders by one step instead of by drag and drop, and keeps 60 history
  entries.
\<close>

record Exercise_v3 =
  id_ex3 :: string
  name_ex3 :: string
  currentWeight3 :: real
  previousWeight3 :: "real option"
  bestWeight3 :: real
  notes_ex3 :: string
  targetSets3 :: int
  completedSets3 :: int

record TrainingPlan_v3 =
  id_plan3 :: string
  name_plan3 :: string
  exercises3 :: "Exercise_v3 list"

record TrainingHistoryEntry_v3 =
  id_entry3 :: string
  dateIso3 :: string
  planName3 :: string
  exercises_entry3 :: "HistoryExercise list"

record AppState_v3 =
  plans3 :: "TrainingPlan_v3 list"
  history3 :: "TrainingHistoryEntry_v3 list"
  activePlanId3 :: string

definition activePlan_v3 :: "AppState_v3 \<Rightarrow> TrainingPlan_v3 option" where
  "activePlan_v3 s = find (\<lambda>plan. id_plan3 plan = activePlanId3 s) (plans3 s)"

text \<open>The offset has the type \<open>-1 | 1\<close> in the source; the guards work for any integer.\<close>

definition moveExerciseByOffset :: "string \<Rightarrow> int \<Rightarrow> AppState_v3 \<Rightarrow> AppState_v3" where
  "moveExerciseByOffset exerciseId offset s =
     (case activePlan_v3 s of
        None \<Rightarrow> s
      | Some active \<Rightarrow>
          s\<lparr>plans3 :=
              map (\<lambda>plan.
                    if id_plan3 plan \<noteq> id_plan3 active then plan
                    else
                      (let index = findIndex (\<lambda>exercise. id_ex3 exercise = exerciseId) (exercises3 plan);
                           target = index + offset
                       in if index < 0 \<or> target < 0 \<or> target \<ge> int (length (exercises3 plan))
                          then plan
                          else
                            (let moved = exercises3 plan ! nat index;
                                 reordered = spliceRemove (nat index) (exercises3 plan)
                             in plan\<lparr>exercises3 := spliceInsert (nat target) moved reordered\<rparr>)))
                  (plans3 s)\<rparr>)"

definition snapshot_v3 :: "Exercise_v3 \<Rightarrow> HistoryExercise" where
  "snapshot_v3 exercise =
     \<lparr> name_h = name_ex3 exercise,
       weight = currentWeight3 exercise,
       completedSets_h = completedSets3 exercise,
       targetSets_h = targetSets3 exercise,
       isPr =
         (case previousWeight3 exercise of
            None \<Rightarrow> False
          | Some previous \<Rightarrow>
              currentWeight3 exercise \<ge> bestWeight3 exercise
              \<and> currentWeight3 exercise > previous) \<rparr>"

definition finishWorkout :: "string \<Rightarrow> string \<Rightarrow> AppState_v3 \<Rightarrow> AppState_v3" where
  "finishWorkout newId nowIso s =
     (case activePlan_v3 s of
        None \<Rightarrow> s
      | Some active \<Rightarrow>
          if length (exercises3 active) = 0 then s
          else
            (let entry =
                   \<lparr> id_entry3 = newId,
                     dateIso3 = nowIso,
                     planName3 = name_plan3 active,
                     exercises_entry3 = map snapshot_v3 (exercises3 active) \<rparr>
             in s\<lparr>history3 := take 60 (entry # history3 s),
                   plans3 :=
                     map (\<lambda>plan.
                           if id_plan3 plan = id_plan3 active
                           then plan\<lparr>exercises3 :=
                                  map (\<lambda>exercise. exercise\<lparr>completedSets3 := 0\<rparr>)
                                      (exercises3 plan)\<rparr>
                           else plan)
                         (plans3 s)\<rparr>))"

section \<open>Events and runs of the store\<close>

text \<open>
  One constructor for each handler of \<open>App.tsx\<close> that changes the store, the plan
  picker (\<open>setActivePlanId\<close>), and a restart of the application, which reads back
  what the two saving effects wrote.
\<close>

datatype Action =
    CreatePlan string string
  | AddExercise string string "real option"
  | UpdateExerciseWeight string "real option"
  | ChangeExerciseByDelta string real
  | SetExerciseCompleted string bool
  | SetExerciseSets string int
  | UpdateExerciseMeta string MetaPatch
  | DeleteExercise string
  | RenameActivePlan string
  | DeleteActivePlan
  | MoveExercise string string
  | FinishTraining string string
  | SelectPlan string
  | Reload

definition initState :: "PlanInput list option \<Rightarrow> TrainingHistoryEntry list option \<Rightarrow> AppState" where
  "initState rawPlans rawHistory =
     \<lparr> plans = loadPlans rawPlans, history = loadHistory rawHistory, activePlanId = [] \<rparr>"

definition reload :: "AppState \<Rightarrow> AppState" where
  "reload s = initState (Some (map storePlan (plans s))) (Some (history s))"

text \<open>The state that the first event sees: loaded, and the selection effect has run.\<close>

definition startState :: "PlanInput list option \<Rightarrow> TrainingHistoryEntry list option \<Rightarrow> AppState" where
  "startState rawPlans rawHistory = syncActivePlanId (initState rawPlans rawHistory)"

fun perform :: "Action \<Rightarrow> AppState \<Rightarrow> AppState" where
  "perform (CreatePlan newId n) s = createPlan newId n s"
| "perform (AddExercise newId n w) s = addExercise newId n w s"
| "perform (UpdateExerciseWeight eid w) s = updateExerciseWeight eid w s"
| "perform (ChangeExerciseByDelta eid d) s = changeExerciseByDelta eid d s"
| "perform (SetExerciseCompleted eid c) s = setExerciseCompleted eid c s"
| "perform (SetExerciseSets eid n) s = setExerciseSets eid n s"
| "perform (UpdateExerciseMeta eid p) s = updateExerciseMeta eid p s"
| "perform (DeleteExercise eid) s = deleteExercise eid s"
| "perform (RenameActivePlan n) s = renameActivePlan n s"
| "perform DeleteActivePlan s = deleteActivePlan s"
| "perform (MoveExercise d t) s = moveExercise d t s"
| "perform (FinishTraining newId now) s = finishTraining newId now s"
| "perform (SelectPlan pid) s = s\<lparr>activePlanId := pid\<rparr>"
| "perform Reload s = reload s"

text \<open>After every event the selection effect runs on the new state.\<close>

definition step :: "Action \<Rightarrow> AppState \<Rightarrow> AppState" where
  "step a s = syncActivePlanId (perform a s)"

fun run :: "AppState \<Rightarrow> Action list \<Rightarrow> AppState" where
  "run s [] = s"
| "run s (a # as) = run (step a s) as"

section \<open>Observations used in the statements\<close>

definition exerciseAt :: "AppState \<Rightarrow> nat \<Rightarrow> nat \<Rightarrow> Exercise" where
  "exerciseAt s i j = exercises (plans s ! i) ! j"

definition allExercises :: "AppState \<Rightarrow> Exercise list" where
  "allExercises s = concat (map exercises (plans s))"

text \<open>
  How one exercise may change in one event: it keeps its id, its best weight does not go
  down, and it keeps each of the two invariants that it had. A fresh exercise has no
  previous weight, its best weight is its current weight and its counter is in range.
\<close>

definition setsInRange :: "Exercise \<Rightarrow> bool" where
  "setsInRange e = (0 \<le> completedSets e \<and> completedSets e \<le> targetSets e)"

definition exStep :: "Exercise \<Rightarrow> Exercise \<Rightarrow> bool" where
  "exStep e e' =
     (id_ex e' = id_ex e \<and> bestWeight e \<le> bestWeight e'
      \<and> (currentWeight e \<le> bestWeight e \<longrightarrow> currentWeight e' \<le> bestWeight e')
      \<and> (setsInRange e \<longrightarrow> setsInRange e'))"

definition fresh :: "Exercise \<Rightarrow> bool" where
  "fresh e = (previousWeight e = None \<and> bestWeight e = currentWeight e \<and> setsInRange e)"

text \<open>
  Exercises and plans are told apart by their ids, which \<open>createId\<close> builds from the
  clock and a random number. \<open>addedId\<close> is the id that an event gives to a new
  exercise; \<open>newIdsFresh\<close> says that the id which \<open>createId\<close> supplied to an event
  is not in use in the state; \<open>wellFormed\<close> says that no two plans and no two exercises
  of the store share an id.
\<close>

fun addedId :: "Action \<Rightarrow> string option" where
  "addedId (AddExercise newId n w) = Some newId"
| "addedId a = None"

fun newIdsFresh :: "Action \<Rightarrow> AppState \<Rightarrow> bool" where
  "newIdsFresh (CreatePlan newId n) s = (newId \<notin> set (map id_plan (plans s)))"
| "newIdsFresh (AddExercise newId n w) s = (newId \<notin> set (map id_ex (allExercises s)))"
| "newIdsFresh a s = True"

definition wellFormed :: "AppState \<Rightarrow> bool" where
  "wellFormed s =
     (distinct (map id_plan (plans s)) \<and> distinct (map id_ex (allExercises s)))"

text \<open>
  The shape that the handlers share: the exercise list of every plan with the given id is
  rewritten, the rest of the state stays. The handlers above are shown to be instances of
  it, with the per-exercise changes below.
\<close>

definition inPlan :: "string \<Rightarrow> (Exercise list \<Rightarrow> Exercise list) \<Rightarrow> AppState \<Rightarrow> AppState" where
  "inPlan a G s =
     s\<lparr>plans := map (\<lambda>plan. if id_plan plan = a then plan\<lparr>exercises := G (exercises plan)\<rparr>
                               else plan) (plans s)\<rparr>"

definition onId :: "string \<Rightarrow> (Exercise \<Rightarrow> Exercise) \<Rightarrow> Exercise \<Rightarrow> Exercise" where
  "onId eid f e = (if id_ex e = eid then f e else e)"

definition weightTo :: "real \<Rightarrow> Exercise \<Rightarrow> Exercise" where
  "weightTo nextWeight e =
     (if currentWeight e = nextWeight then e
      else e\<lparr>previousWeight := Some (currentWeight e),
             currentWeight := nextWeight,
             bestWeight := max (bestWeight e) nextWeight,
             completed := False\<rparr>)"

definition deltaStep :: "real \<Rightarrow> Exercise \<Rightarrow> Exercise" where
  "deltaStep delta e = weightTo (clampWeight (toFixed1 (currentWeight e + delta))) e"

definition completedTo :: "bool \<Rightarrow> Exercise \<Rightarrow> Exercise" where
  "completedTo c e = e\<lparr>completed := c, completedSets := (if c then targetSets e else 0)\<rparr>"

definition setsTo :: "int \<Rightarrow> Exercise \<Rightarrow> Exercise" where
  "setsTo n e =
     e\<lparr>completedSets := clampInt n 0 (targetSets e),
       completed := (clampInt n 0 (targetSets e) \<ge> targetSets e)\<rparr>"

definition patchedTarget :: "MetaPatch \<Rightarrow> Exercise \<Rightarrow> int" where
  "patchedTarget patch e =
     (case targetSets_patch patch of
        None \<Rightarrow> targetSets e
      | Some t \<Rightarrow> if t = 0 then targetSets e else clampInt t 1 12)"

definition metaTo :: "MetaPatch \<Rightarrow> Exercise \<Rightarrow> Exercise" where
  "metaTo patch e =
     e\<lparr>name_ex := (case name_patch patch of None \<Rightarrow> name_ex e | Some n \<Rightarrow> n),
       notes_ex := (case notes_patch patch of None \<Rightarrow> notes_ex e | Some n \<Rightarrow> n),
       targetSets := patchedTarget patch e,
       completedSets := clampInt (completedSets e) 0 (patchedTarget patch e),
       completed := (clampInt (completedSets e) 0 (patchedTarget patch e) \<ge> patchedTarget patch e)\<rparr>"

definition moveIn :: "string \<Rightarrow> string \<Rightarrow> Exercise list \<Rightarrow> Exercise list" where
  "moveIn dragId targetId xs =
     (let fromIndex = findIndex (\<lambda>exercise. id_ex exercise = dragId) xs;
          toIndex = findIndex (\<lambda>exercise. id_ex exercise = targetId) xs
      in if fromIndex < 0 \<or> toIndex < 0 \<or> fromIndex = toIndex then xs
         else spliceInsert (nat toIndex) (xs ! nat fromIndex) (spliceRemove (nat fromIndex) xs))"

definition resetSets :: "Exercise \<Rightarrow> Exercise" where
  "resetSets e = e\<lparr>completed := False, completedSets := 0\<rparr>"

text \<open>
  The frame of an event that names one exercise. \<open>othersKept\<close>: the history, the
  selection and the number, ids and names of the plans stay, a plan without the active id
  stays as it is, and in every plan the exercises with another id are the same, in the same
  order. \<open>samePlaces\<close>: every exercise list keeps its length and every exercise with
  another id keeps its place.
\<close>

definition othersKept :: "string \<Rightarrow> AppState \<Rightarrow> AppState \<Rightarrow> bool" where
  "othersKept eid s s' =
     (length (plans s') = length (plans s) \<and> history s' = history s
      \<and> activePlanId s' = activePlanId s
      \<and> list_all
           (\<lambda>i. id_plan (plans s' ! i) = id_plan (plans s ! i)
                \<and> name_plan (plans s' ! i) = name_plan (plans s ! i)
                \<and> (id_plan (plans s ! i) \<noteq> activePlanId s \<longrightarrow> plans s' ! i = plans s ! i)
                \<and> filter (\<lambda>e. id_ex e \<noteq> eid) (exercises (plans s' ! i))
                    = filter (\<lambda>e. id_ex e \<noteq> eid) (exercises (plans s ! i)))
           [0..<length (plans s)])"

definition samePlaces :: "string \<Rightarrow> AppState \<Rightarrow> AppState \<Rightarrow> bool" where
  "samePlaces eid s s' =
     list_all
       (\<lambda>i. length (exercises (plans s' ! i)) = length (exercises (plans s ! i))
            \<and> list_all (\<lambda>j. id_ex (exerciseAt s i j) \<noteq> eid \<longrightarrow> exerciseAt s' i j = exerciseAt s i j)
                 [0..<length (exercises (plans s ! i))])
       [0..<length (plans s)]"

text \<open>A small store for the concrete checks: one active plan with two exercises.\<close>

definition bench :: Exercise where
  "bench = \<lparr> id_ex = ''e1'', name_ex = ''Bench'', currentWeight = 20,
             previousWeight = Some 18, bestWeight = 20, completed = False,
             notes_ex = [], targetSets = 3, completedSets = 2 \<rparr>"

definition squat :: Exercise where
  "squat = \<lparr> id_ex = ''e2'', name_ex = ''Squat'', currentWeight = 60,
             previousWeight = None, bestWeight = 65, completed = True,
             notes_ex = ''deep'', targetSets = 4, completedSets = 4 \<rparr>"

definition pushDay :: TrainingPlan where
  "pushDay = \<lparr> id_plan = ''p1'', name_plan = ''Push Day'', exercises = [bench, squat] \<rparr>"

definition legDay :: TrainingPlan where
  "legDay = \<lparr> id_plan = ''p2'', name_plan = ''Leg Day'', exercises = [squat] \<rparr>"

definition oldEntry :: TrainingHistoryEntry where
  "oldEntry = \<lparr> id_entry = ''h0'', dateIso = ''2024-01-01'', planId = ''p1'',
                planName = ''Push'', exercises_entry = [] \<rparr>"

definition demo :: AppState where
  "demo = \<lparr> plans = [pushDay, legDay], history = [oldEntry], activePlanId = ''p1'' \<rparr>"

text \<open>The same store with the first plan only, so that no two exercises share an id.\<close>

definition soloDemo :: AppState where
  "soloDemo = \<lparr> plans = [pushDay], history = [oldEntry], activePlanId = ''p1'' \<rparr>"

text \<open>
  A stored payload from an older schema: no best weight, no flag, and set counts outside
  the range that the selectors offer.
\<close>

definition legacyPayload :: "PlanInput list option" where
  "legacyPayload =
     Some [\<lparr> id_pin = ''p1'', name_pin = ''Push Day'',
              exercises_in =
                Some [\<lparr> id_in = ''e1'', name_in = ''Bench'', currentWeight_in = Some 20,
                         previousWeight_in = None, bestWeight_in = None, completed_in = None,
                         notes_in = None, targetSets_in = Some 20,
                         completedSets_in = Some 50 \<rparr>] \<rparr>]"

definition targetPatch :: "int \<Rightarrow> MetaPatch" where
  "targetPatch t = \<lparr> name_patch = None, notes_patch = None, targetSets_patch = Some t \<rparr>"

text \<open>The rewriting of one exercise list by \<open>moveExerciseByOffset\<close>.\<close>

definition moveByOffsetIn :: "string \<Rightarrow> int \<Rightarrow> Exercise_v3 list \<Rightarrow> Exercise_v3 list" where
  "moveByOffsetIn exerciseId offset xs =
     (let index = findIndex (\<lambda>exercise. id_ex3 exercise = exerciseId) xs;
          target = index + offset
      in if index < 0 \<or> target < 0 \<or> target \<ge> int (length xs) then xs
         else spliceInsert (nat target) (xs ! nat index) (spliceRemove (nat index) xs))"

text \<open>A store whose active plan has three exercises.\<close>

definition row :: Exercise where
  "row = \<lparr> id_ex = ''e3'', name_ex = ''Row'', currentWeight = 40,
           previousWeight = None, bestWeight = 40, completed = False,
           notes_ex = [], targetSets = 3, completedSets = 0 \<rparr>"

definition demoThree :: AppState where
  "demoThree = \<lparr> plans = [legDay, \<lparr> id_plan = ''p1'', name_plan = ''Push Day'',
                                    exercises = [bench, squat, row] \<rparr>],
                 history = [], activePlanId = ''p1'' \<rparr>"

text \<open>Stores whose history is long: 40 entries, and 50 entries in the other variant.\<close>

definition fullDemo :: AppState where
  "fullDemo = demo\<lparr>history := replicate 40 oldEntry\<rparr>"

definition bench3 :: Exercise_v3 where
  "bench3 = \<lparr> id_ex3 = ''e1'', name_ex3 = ''Bench'', currentWeight3 = 20,
              previousWeight3 = Some 18, bestWeight3 = 20, notes_ex3 = [],
              targetSets3 = 3, completedSets3 = 2 \<rparr>"

definition squat3 :: Exercise_v3 where
  "squat3 = \<lparr> id_ex3 = ''e2'', name_ex3 = ''Squat'', currentWeight3 = 60,
              previousWeight3 = None, bestWeight3 = 65, notes_ex3 = [],
              targetSets3 = 4, completedSets3 = 4 \<rparr>"

definition row3 :: Exercise_v3 where
  "row3 = \<lparr> id_ex3 = ''e3'', name_ex3 = ''Row'', currentWeight3 = 40,
            previousWeight3 = None, bestWeight3 = 40, notes_ex3 = [],
            targetSets3 = 3, completedSets3 = 0 \<rparr>"

definition oldEntry3 :: TrainingHistoryEntry_v3 where
  "oldEntry3 = \<lparr> id_entry3 = ''h0'', dateIso3 = ''2024-01-01'', planName3 = ''Push'',
                 exercises_entry3 = [] \<rparr>"

definition demo3 :: AppState_v3 where
  "demo3 = \<lparr> plans3 = [\<lparr> id_plan3 = ''p1'', name_plan3 = ''Push Day'',
                         exercises3 = [bench3, squat3, row3] \<rparr>],
             history3 = replicate 50 oldEntry3, activePlanId3 = ''p1'' \<rparr>"

section \<open>Lists: \<open>findIndex\<close> and the two uses of \<open>splice\<close>\<close>

lemma activePlan_id: "activePlan s = Some a \<Longrightarrow> id_plan a = activePlanId s"
  by (auto simp: activePlan_def find_Some_iff)

lemma activePlan_exists:
  "i < length (plans s) \<Longrightarrow> id_plan (plans s ! i) = activePlanId s \<Longrightarrow> \<exists>a. activePlan s = Some a"
  by (cases "activePlan s") (auto simp: activePlan_def find_None_iff)

lemma activePlan_None: "activePlan s = None \<Longrightarrow> p \<in> set (plans s) \<Longrightarrow> id_plan p \<noteq> activePlanId s"
  by (auto simp: activePlan_def find_None_iff)

lemma findIndex_lt: "findIndex P xs < int (length xs)"
  by (induction xs) (auto simp: Let_def)

lemma findIndex_neg_iff: "findIndex P xs < 0 \<longleftrightarrow> (\<forall>x\<in>set xs. \<not> P x)"
  by (induction xs) (auto simp: Let_def)

lemma findIndex_holds: "0 \<le> findIndex P xs \<Longrightarrow> P (xs ! nat (findIndex P xs))"
proof (induction xs)
  case Nil
  then show ?case by simp
next
  case (Cons x xs)
  show ?case
  proof (cases "P x")
    case True
    then show ?thesis by simp
  next
    case False
    with Cons.prems have nn: "0 \<le> findIndex P xs" by (auto simp: Let_def split: if_splits)
    with Cons.IH have "P (xs ! nat (findIndex P xs))" by simp
    with False nn show ?thesis by (simp add: Let_def nat_add_distrib)
  qed
qed

lemma mset_splice:
  assumes i: "i < length xs"
  shows "mset (spliceInsert k (xs ! i) (spliceRemove i xs)) = mset xs"
proof -
  let ?ys = "spliceRemove i xs"
  have split: "mset (take k ?ys) + mset (drop k ?ys) = mset ?ys"
    by (metis append_take_drop_id mset_append)
  have "mset (spliceInsert k (xs ! i) ?ys) = mset (take k ?ys) + mset (drop k ?ys) + {#xs ! i#}"
    by (simp add: spliceInsert_def)
  also have "\<dots> = mset ?ys + {#xs ! i#}" using split by simp
  also have "\<dots> = mset (take i xs @ xs ! i # drop (Suc i) xs)"
    by (simp add: spliceRemove_def)
  also have "\<dots> = mset xs" using i by (simp add: id_take_nth_drop [symmetric])
  finally show ?thesis .
qed

lemma set_splice:
  "i < length xs \<Longrightarrow> set (spliceInsert k (xs ! i) (spliceRemove i xs)) = set xs"
  by (metis mset_splice set_mset_mset)

lemma length_spliceRemove: "i < length xs \<Longrightarrow> length (spliceRemove i xs) = length xs - 1"
  by (auto simp: spliceRemove_def)

lemma nth_spliceInsert: "k \<le> length ys \<Longrightarrow> spliceInsert k v ys ! k = v"
  by (simp add: spliceInsert_def nth_append)

lemma remove_spliceInsert: "k \<le> length ys \<Longrightarrow> spliceRemove k (spliceInsert k v ys) = ys"
  by (simp add: spliceInsert_def spliceRemove_def)

lemma exStep_refl: "exStep e e"
  by (simp add: exStep_def)

section \<open>The handlers as instances of the shared shape\<close>

lemma shape_updateExerciseWeight:
  "updateExerciseWeight eid w s =
     (case w of None \<Rightarrow> s
      | Some v \<Rightarrow> if activePlan s = None \<or> v < 0 then s
                  else inPlan (activePlanId s) (map (onId eid (weightTo (toFixed1 v)))) s)"
  by (auto simp: updateExerciseWeight_def inPlan_def onId_def weightTo_def Let_def activePlan_id
           split: option.splits intro!: arg_cong [where f = "\<lambda>x. s\<lparr>plans := x\<rparr>"])

lemma shape_changeExerciseByDelta:
  "changeExerciseByDelta eid d s =
     (if activePlan s = None then s
      else inPlan (activePlanId s) (map (onId eid (deltaStep d))) s)"
  by (auto simp: changeExerciseByDelta_def inPlan_def onId_def weightTo_def deltaStep_def Let_def activePlan_id
           split: option.splits intro!: arg_cong [where f = "\<lambda>x. s\<lparr>plans := x\<rparr>"])

lemma shape_setExerciseCompleted:
  "setExerciseCompleted eid c s =
     (if activePlan s = None then s
      else inPlan (activePlanId s) (map (onId eid (completedTo c))) s)"
  by (auto simp: setExerciseCompleted_def inPlan_def onId_def completedTo_def Let_def activePlan_id
           split: option.splits intro!: arg_cong [where f = "\<lambda>x. s\<lparr>plans := x\<rparr>"])

lemma shape_setExerciseSets:
  "setExerciseSets eid n s =
     (if activePlan s = None then s
      else inPlan (activePlanId s) (map (onId eid (setsTo n))) s)"
  by (auto simp: setExerciseSets_def inPlan_def onId_def setsTo_def Let_def activePlan_id
           split: option.splits intro!: arg_cong [where f = "\<lambda>x. s\<lparr>plans := x\<rparr>"])

lemma shape_updateExerciseMeta:
  "updateExerciseMeta eid p s =
     (if activePlan s = None then s
      else inPlan (activePlanId s) (map (onId eid (metaTo p))) s)"
  by (auto simp: updateExerciseMeta_def inPlan_def onId_def metaTo_def patchedTarget_def Let_def activePlan_id
           split: option.splits intro!: arg_cong [where f = "\<lambda>x. s\<lparr>plans := x\<rparr>"])

lemma shape_deleteExercise:
  "deleteExercise eid s =
     (if activePlan s = None then s
      else inPlan (activePlanId s) (filter (\<lambda>exercise. id_ex exercise \<noteq> eid)) s)"
  by (auto simp: deleteExercise_def inPlan_def activePlan_id split: option.splits)

lemma shape_moveExercise:
  "moveExercise d t s =
     (if activePlan s = None \<or> d = t then s
      else inPlan (activePlanId s) (moveIn d t) s)"
  by (auto simp: moveExercise_def inPlan_def moveIn_def Let_def activePlan_id
           split: option.splits intro!: arg_cong [where f = "\<lambda>x. s\<lparr>plans := x\<rparr>"])

lemma shape_finishTraining:
  "finishTraining newId now s =
     (case activePlan s of None \<Rightarrow> s
      | Some active \<Rightarrow>
          if exercises active = [] then s
          else (inPlan (activePlanId s) (map resetSets) s)
                 \<lparr>history := take 40 (\<lparr> id_entry = newId, dateIso = now, planId = id_plan active,
                                        planName = name_plan active,
                                        exercises_entry = map snapshot (exercises active) \<rparr> # history s)\<rparr>)"
  by (auto simp: finishTraining_def inPlan_def resetSets_def Let_def activePlan_id
           split: option.splits)

lemma shape_addExercise:
  "addExercise newId n w s =
     (case w of None \<Rightarrow> s
      | Some v \<Rightarrow>
          if activePlan s = None \<or> trim n = [] \<or> v < 0 then s
          else inPlan (activePlanId s)
                 (\<lambda>xs. xs @ [\<lparr> id_ex = newId, name_ex = trim n, currentWeight = toFixed1 v,
                               previousWeight = None, bestWeight = toFixed1 v, completed = False,
                               notes_ex = [], targetSets = 3, completedSets = 0 \<rparr>]) s)"
  by (auto simp: addExercise_def inPlan_def Let_def activePlan_id split: option.splits)

section \<open>What one event does to the exercises\<close>

lemma inPlan_simps [simp]:
  "activePlanId (inPlan a G s) = activePlanId s"
  "history (inPlan a G s) = history s"
  "length (plans (inPlan a G s)) = length (plans s)"
  "map id_plan (plans (inPlan a G s)) = map id_plan (plans s)"
  by (simp_all add: inPlan_def comp_def)

lemma inPlan_nth:
  "i < length (plans s) \<Longrightarrow>
   plans (inPlan a G s) ! i =
     (if id_plan (plans s ! i) = a then (plans s ! i)\<lparr>exercises := G (exercises (plans s ! i))\<rparr>
      else plans s ! i)"
  by (simp add: inPlan_def)

lemma activePlan_None_iff: "activePlan s = None \<longleftrightarrow> activePlanId s \<notin> set (map id_plan (plans s))"
  by (force simp: activePlan_def find_None_iff)

lemma activePlan_inPlan_None:
  "activePlan (inPlan a G s) = None \<longleftrightarrow> activePlan s = None"
  by (simp only: activePlan_None_iff inPlan_simps)

lemma inPlan_idem:
  assumes "\<And>xs. G (G xs) = G xs"
  shows "inPlan a G (inPlan a G s) = inPlan a G s"
  using assms by (simp add: inPlan_def comp_def cong: if_cong)

lemma stems_inPlan:
  assumes G: "\<And>xs e'. e' \<in> set (G xs) \<Longrightarrow> (\<exists>e\<in>set xs. exStep e e') \<or> F e'"
    and mem: "e' \<in> set (allExercises (inPlan a G s))"
  shows "(\<exists>e\<in>set (allExercises s). exStep e e') \<or> F e'"
proof -
  from mem obtain p where p: "p \<in> set (plans s)"
    and e': "e' \<in> set (exercises (if id_plan p = a then p\<lparr>exercises := G (exercises p)\<rparr> else p))"
    by (auto simp: allExercises_def inPlan_def)
  show ?thesis
  proof (cases "id_plan p = a")
    case True
    with e' have "e' \<in> set (G (exercises p))" by simp
    from G [OF this] p show ?thesis by (auto simp: allExercises_def)
  next
    case False
    with e' p show ?thesis by (auto simp: allExercises_def intro: exStep_refl)
  qed
qed

lemma stems_map_onId:
  assumes "\<And>e. exStep e (f e)"
  shows "e' \<in> set (map (onId eid f) xs) \<Longrightarrow> (\<exists>e\<in>set xs. exStep e e') \<or> False"
  using assms by (auto simp: onId_def intro: exStep_refl)

lemma stems_inPlan_map:
  assumes f: "\<And>e. exStep e (f e)"
    and mem: "e' \<in> set (allExercises (inPlan a (map (onId eid f)) s))"
  shows "\<exists>e\<in>set (allExercises s). exStep e e'"
  using stems_inPlan [where G = "map (onId eid f)" and F = "\<lambda>e. False", OF stems_map_onId [OF f] mem]
  by simp

lemma exStep_weightTo: "exStep e (weightTo v e)"
  by (simp add: exStep_def weightTo_def setsInRange_def)

lemma exStep_deltaStep: "exStep e (deltaStep d e)"
  by (simp add: deltaStep_def exStep_weightTo)

lemma exStep_completedTo: "exStep e (completedTo c e)"
  by (simp add: exStep_def completedTo_def setsInRange_def)

lemma exStep_setsTo: "exStep e (setsTo n e)"
  by (auto simp: exStep_def setsTo_def setsInRange_def clampInt_def)

lemma exStep_metaTo: "exStep e (metaTo p e)"
  by (auto simp: exStep_def metaTo_def patchedTarget_def setsInRange_def clampInt_def
           split: option.splits)

lemma exStep_resetSets: "exStep e (resetSets e)"
  by (auto simp: exStep_def resetSets_def setsInRange_def)

lemma set_moveIn: "set (moveIn d t xs) = set xs"
proof -
  have "nat (findIndex (\<lambda>e. id_ex e = d) xs) < length xs"
    if "0 \<le> findIndex (\<lambda>e. id_ex e = d) xs"
    using that findIndex_lt [of "\<lambda>e. id_ex e = d" xs] by linarith
  then show ?thesis by (auto simp: moveIn_def Let_def set_splice)
qed

lemma mset_moveIn: "mset (moveIn d t xs) = mset xs"
proof -
  have "nat (findIndex (\<lambda>e. id_ex e = d) xs) < length xs"
    if "0 \<le> findIndex (\<lambda>e. id_ex e = d) xs"
    using that findIndex_lt [of "\<lambda>e. id_ex e = d" xs] by linarith
  then show ?thesis by (auto simp: moveIn_def Let_def mset_splice)
qed

lemma exStep_normalize_store: "exStep e (normalizeExercise (storeExercise e))"
  by (auto simp: exStep_def normalizeExercise_def storeExercise_def setsInRange_def clampInt_def Let_def)

lemma setsInRange_normalize: "setsInRange (normalizeExercise x)"
  by (auto simp: normalizeExercise_def setsInRange_def clampInt_def Let_def)

lemma allExercises_sync [simp]: "allExercises (syncActivePlanId s) = allExercises s"
  by (simp add: syncActivePlanId_def allExercises_def split: list.splits)

lemma history_sync [simp]: "history (syncActivePlanId s) = history s"
  by (simp add: syncActivePlanId_def split: list.splits)

lemma plans_sync [simp]: "plans (syncActivePlanId s) = plans s"
  by (simp add: syncActivePlanId_def split: list.splits)

lemma allExercises_rename [simp]: "allExercises (renameActivePlan n s) = allExercises s"
proof -
  have same: "exercises (if c then p\<lparr>name_plan := m\<rparr> else p) = exercises p"
    for c and p :: TrainingPlan and m
    by simp
  show ?thesis
    by (simp add: renameActivePlan_def allExercises_def Let_def comp_def same split: option.splits)
qed

lemma stems_perform:
  assumes "e' \<in> set (allExercises (perform a s))"
  shows "(\<exists>e\<in>set (allExercises s). exStep e e') \<or> (fresh e' \<and> addedId a = Some (id_ex e'))"
proof (cases a)
  case (CreatePlan newId n)
  with assms show ?thesis
    by (auto simp: createPlan_def allExercises_def Let_def intro: exStep_refl split: if_splits)
next
  case (AddExercise newId n w)
  show ?thesis
  proof (cases "\<exists>v. w = Some v \<and> activePlan s \<noteq> None \<and> trim n \<noteq> [] \<and> \<not> v < 0")
    case True
    then obtain v where v: "w = Some v" "activePlan s \<noteq> None" "trim n \<noteq> []" "\<not> v < 0"
      by blast
    let ?new = "\<lparr> id_ex = newId, name_ex = trim n, currentWeight = toFixed1 v,
                  previousWeight = None, bestWeight = toFixed1 v, completed = False,
                  notes_ex = [], targetSets = 3, completedSets = 0 \<rparr>"
    have G: "(\<exists>e\<in>set xs. exStep e x) \<or> (fresh x \<and> Some newId = Some (id_ex x))"
      if "x \<in> set (xs @ [?new])" for x xs
      using that by (auto simp: fresh_def setsInRange_def intro: exStep_refl)
    have "perform a s = inPlan (activePlanId s) (\<lambda>xs. xs @ [?new]) s"
      using AddExercise v by (auto simp: shape_addExercise)
    with assms AddExercise
      stems_inPlan [where G = "\<lambda>xs. xs @ [?new]"
                      and F = "\<lambda>x. fresh x \<and> Some newId = Some (id_ex x)", OF G]
    show ?thesis by simp
  next
    case False
    then have "perform a s = s"
      using AddExercise by (auto simp: shape_addExercise split: option.splits)
    with assms show ?thesis by (auto intro: exStep_refl)
  qed
next
  case (UpdateExerciseWeight eid w)
  with assms show ?thesis
    by (auto simp: shape_updateExerciseWeight split: option.splits if_splits intro: exStep_refl
             dest: stems_inPlan_map [OF exStep_weightTo])
next
  case (ChangeExerciseByDelta eid d)
  with assms show ?thesis
    by (auto simp: shape_changeExerciseByDelta split: option.splits if_splits intro: exStep_refl
             dest: stems_inPlan_map [OF exStep_deltaStep])
next
  case (SetExerciseCompleted eid c)
  with assms show ?thesis
    by (auto simp: shape_setExerciseCompleted split: option.splits if_splits intro: exStep_refl
             dest: stems_inPlan_map [OF exStep_completedTo])
next
  case (SetExerciseSets eid n)
  with assms show ?thesis
    by (auto simp: shape_setExerciseSets split: option.splits if_splits intro: exStep_refl
             dest: stems_inPlan_map [OF exStep_setsTo])
next
  case (UpdateExerciseMeta eid p)
  with assms show ?thesis
    by (auto simp: shape_updateExerciseMeta split: option.splits if_splits intro: exStep_refl
             dest: stems_inPlan_map [OF exStep_metaTo])
next
  case (DeleteExercise eid)
  have "(\<exists>e\<in>set xs. exStep e x) \<or> False" if "x \<in> set (filter (\<lambda>e. id_ex e \<noteq> eid) xs)" for x xs
    using that by (auto intro: exStep_refl)
  from stems_inPlan [where G = "filter (\<lambda>e. id_ex e \<noteq> eid)" and F = "\<lambda>e. False", OF this]
    assms DeleteExercise show ?thesis
    by (auto simp: shape_deleteExercise split: if_splits intro: exStep_refl)
next
  case (RenameActivePlan n)
  with assms show ?thesis
    by (auto intro: exStep_refl)
next
  case DeleteActivePlan
  with assms show ?thesis
    by (auto simp: deleteActivePlan_def allExercises_def intro: exStep_refl split: option.splits)
next
  case (MoveExercise d t)
  have "(\<exists>e\<in>set xs. exStep e x) \<or> False" if "x \<in> set (moveIn d t xs)" for x xs
    using that by (auto simp: set_moveIn intro: exStep_refl)
  from stems_inPlan [where G = "moveIn d t" and F = "\<lambda>e. False", OF this]
    assms MoveExercise show ?thesis
    by (auto simp: shape_moveExercise split: if_splits intro: exStep_refl)
next
  case (FinishTraining newId now)
  have "(\<exists>e\<in>set xs. exStep e x) \<or> False" if "x \<in> set (map resetSets xs)" for x xs
    using that by (auto intro: exStep_resetSets)
  from stems_inPlan [where G = "map resetSets" and F = "\<lambda>e. False", OF this]
    assms FinishTraining show ?thesis
    by (auto simp: shape_finishTraining allExercises_def split: option.splits if_splits intro: exStep_refl)
next
  case (SelectPlan pid)
  with assms show ?thesis by (auto simp: allExercises_def intro: exStep_refl)
next
  case Reload
  with assms show ?thesis
    by (auto simp: reload_def initState_def loadPlans_def storePlan_def allExercises_def
             intro: exStep_normalize_store)
qed

section \<open>The properties of the specification\<close>

lemma exerciseAt_inPlan:
  assumes "i < length (plans s)" "id_plan (plans s ! i) = a" "j < length (exercises (plans s ! i))"
  shows "exerciseAt (inPlan a (map f) s) i j = f (exerciseAt s i j)"
  using assms by (simp add: exerciseAt_def inPlan_nth)

lemma floor_add_half: "\<lfloor>(of_int m :: real) + 1 / 2\<rfloor> = m"
  by linarith

lemma toFixed1_one_decimal: "toFixed1 (of_int k / 10) = of_int k / 10"
proof (cases "k < 0")
  case True
  have "\<lfloor>- (real_of_int k / 10) * 10 + 1 / 2\<rfloor> = - k"
    using floor_add_half [of "- k"] by simp
  with True show ?thesis by (simp add: toFixed1_def)
next
  case False
  have "\<lfloor>real_of_int k / 10 * 10 + 1 / 2\<rfloor> = k"
    using floor_add_half [of k] by simp
  with False show ?thesis by (simp add: toFixed1_def)
qed

text \<open>
  C1. In every plan that carries the active id, for the exercise with the given id:
  a weight written by \<open>updateExerciseWeight\<close> (not negative, and after rounding to
  one decimal different from the current weight), or a step by
  \<open>changeExerciseByDelta\<close> whose rounded and clamped result differs from the current
  weight, becomes the current weight, the best weight becomes the maximum of the old best
  weight and the new current weight, and the previous weight becomes the current weight
  from before the change. When the new value equals the current weight the exercise is
  returned as it was. Rounding leaves a value with one decimal digit, such as the selector
  of the weight supplies, as it is.
\<close>

theorem weight_change_shifts_previous_and_raises_best:
  assumes "i < length (plans s)"
    and "id_plan (plans s ! i) = activePlanId s"
    and "j < length (exercises (plans s ! i))"
    and "id_ex (exerciseAt s i j) = exerciseId"
  shows
    "(0 \<le> w \<and> toFixed1 w \<noteq> currentWeight (exerciseAt s i j) \<longrightarrow>
        currentWeight (exerciseAt (updateExerciseWeight exerciseId (Some w) s) i j) = toFixed1 w
        \<and> bestWeight (exerciseAt (updateExerciseWeight exerciseId (Some w) s) i j)
            = max (bestWeight (exerciseAt s i j))
                  (currentWeight (exerciseAt (updateExerciseWeight exerciseId (Some w) s) i j))
        \<and> previousWeight (exerciseAt (updateExerciseWeight exerciseId (Some w) s) i j)
            = Some (currentWeight (exerciseAt s i j)))
     \<and> (0 \<le> w \<and> toFixed1 w = currentWeight (exerciseAt s i j) \<longrightarrow>
        exerciseAt (updateExerciseWeight exerciseId (Some w) s) i j = exerciseAt s i j)
     \<and> (clampWeight (toFixed1 (currentWeight (exerciseAt s i j) + delta))
          \<noteq> currentWeight (exerciseAt s i j) \<longrightarrow>
        currentWeight (exerciseAt (changeExerciseByDelta exerciseId delta s) i j)
            = clampWeight (toFixed1 (currentWeight (exerciseAt s i j) + delta))
        \<and> bestWeight (exerciseAt (changeExerciseByDelta exerciseId delta s) i j)
            = max (bestWeight (exerciseAt s i j))
                  (currentWeight (exerciseAt (changeExerciseByDelta exerciseId delta s) i j))
        \<and> previousWeight (exerciseAt (changeExerciseByDelta exerciseId delta s) i j)
            = Some (currentWeight (exerciseAt s i j)))
     \<and> (clampWeight (toFixed1 (currentWeight (exerciseAt s i j) + delta))
          = currentWeight (exerciseAt s i j) \<longrightarrow>
        exerciseAt (changeExerciseByDelta exerciseId delta s) i j = exerciseAt s i j)
     \<and> toFixed1 (of_int k / 10) = of_int k / 10"
proof -
  from assms(1,2) obtain a where a: "activePlan s = Some a"
    using activePlan_exists by blast
  have upd: "exerciseAt (updateExerciseWeight exerciseId (Some w) s) i j
             = weightTo (toFixed1 w) (exerciseAt s i j)" if "0 \<le> w"
    using that a assms by (simp add: shape_updateExerciseWeight exerciseAt_inPlan onId_def)
  have chg: "exerciseAt (changeExerciseByDelta exerciseId delta s) i j
             = deltaStep delta (exerciseAt s i j)"
    using a assms by (simp add: shape_changeExerciseByDelta exerciseAt_inPlan onId_def)
  show ?thesis
    by (simp add: upd chg weightTo_def deltaStep_def toFixed1_one_decimal)
qed

theorem weight_change_shifts_previous_and_raises_best_witness:
  "currentWeight (exerciseAt (updateExerciseWeight ''e1'' (Some (45 / 2)) demo) 0 0) = 45 / 2
   \<and> bestWeight (exerciseAt (updateExerciseWeight ''e1'' (Some (45 / 2)) demo) 0 0) = 45 / 2
   \<and> previousWeight (exerciseAt (updateExerciseWeight ''e1'' (Some (45 / 2)) demo) 0 0) = Some 20
   \<and> exerciseAt (updateExerciseWeight ''e1'' (Some 20) demo) 0 0 = bench
   \<and> currentWeight (exerciseAt (changeExerciseByDelta ''e1'' (- 5 / 2) demo) 0 0) = 35 / 2
   \<and> bestWeight (exerciseAt (changeExerciseByDelta ''e1'' (- 5 / 2) demo) 0 0) = 20
   \<and> previousWeight (exerciseAt (changeExerciseByDelta ''e1'' (- 5 / 2) demo) 0 0) = Some 20
   \<and> currentWeight (exerciseAt (changeExerciseByDelta ''e1'' (- 30) demo) 0 0) = 0
   \<and> exerciseAt (changeExerciseByDelta ''e1'' 0 demo) 0 0 = bench
   \<and> toFixed1 (225 / 10) = 225 / 10"
  using weight_change_shifts_previous_and_raises_best [of 0 demo 0 "''e1''" "45 / 2" "- 5 / 2" 225]
    weight_change_shifts_previous_and_raises_best [of 0 demo 0 "''e1''" 20 0 225]
    weight_change_shifts_previous_and_raises_best [of 0 demo 0 "''e1''" 20 "- 30" 225]
  by (simp add: demo_def pushDay_def bench_def exerciseAt_def toFixed1_def clampWeight_def)

lemma onId_weightTo_idem: "onId eid (weightTo v) (onId eid (weightTo v) e) = onId eid (weightTo v) e"
  by (simp add: onId_def weightTo_def)

text \<open>
  C2 (as amended). In every plan that carries the active id, for the exercise with the
  given id: when \<open>updateExerciseWeight\<close> receives a weight that is not negative and
  whose rounding to one decimal differs from the current weight, the exercise afterwards
  is the exercise before with the old current weight as previous weight, the rounded value
  (not clamped to the ceiling of 300) as current weight, the maximum of the old best weight
  and the rounded value as best weight and the flag \<open>completed\<close> cleared. Nothing else
  changes; in particular \<open>completedSets\<close> and \<open>targetSets\<close> keep their values.
\<close>

theorem updateExerciseWeight_effect:
  assumes "i < length (plans s)"
    and "id_plan (plans s ! i) = activePlanId s"
    and "j < length (exercises (plans s ! i))"
    and "id_ex (exerciseAt s i j) = exerciseId"
    and "0 \<le> w"
    and "toFixed1 w \<noteq> currentWeight (exerciseAt s i j)"
  shows
    "exerciseAt (updateExerciseWeight exerciseId (Some w) s) i j
       = (exerciseAt s i j)\<lparr>previousWeight := Some (currentWeight (exerciseAt s i j)),
                             currentWeight := toFixed1 w,
                             bestWeight := max (bestWeight (exerciseAt s i j)) (toFixed1 w),
                             completed := False\<rparr>
     \<and> completedSets (exerciseAt (updateExerciseWeight exerciseId (Some w) s) i j)
         = completedSets (exerciseAt s i j)
     \<and> targetSets (exerciseAt (updateExerciseWeight exerciseId (Some w) s) i j)
         = targetSets (exerciseAt s i j)"
proof -
  from assms(1,2) obtain a where a: "activePlan s = Some a"
    using activePlan_exists by blast
  have "exerciseAt (updateExerciseWeight exerciseId (Some w) s) i j
          = weightTo (toFixed1 w) (exerciseAt s i j)"
    using a assms by (simp add: shape_updateExerciseWeight exerciseAt_inPlan onId_def)
  with assms(6) show ?thesis
    by (simp add: weightTo_def)
qed

theorem updateExerciseWeight_effect_witness:
  "exerciseAt (updateExerciseWeight ''e1'' (Some (45 / 2)) demo) 0 0
     = bench\<lparr>previousWeight := Some 20, currentWeight := 45 / 2, bestWeight := 45 / 2,
             completed := False\<rparr>
   \<and> completedSets (exerciseAt (updateExerciseWeight ''e1'' (Some (45 / 2)) demo) 0 0) = 2
   \<and> targetSets (exerciseAt (updateExerciseWeight ''e1'' (Some (45 / 2)) demo) 0 0) = 3"
  using updateExerciseWeight_effect [of 0 demo 0 "''e1''" "45 / 2"]
  by (simp add: demo_def pushDay_def bench_def exerciseAt_def toFixed1_def)

text \<open>
  The claim as it is written fails on the store \<open>demo\<close>: the exercise \<open>e1\<close> has two
  completed sets at 20 kg; writing 22.5 kg leaves the two sets in place, and writing 350 kg
  stores 350, not the clamped 300.
\<close>

theorem updateExerciseWeight_keeps_completedSets_counterexample:
  "toFixed1 (45 / 2) \<noteq> currentWeight (exerciseAt demo 0 0)
   \<and> id_ex (exerciseAt demo 0 0) = ''e1''
   \<and> completedSets (exerciseAt (updateExerciseWeight ''e1'' (Some (45 / 2)) demo) 0 0) = 2
   \<and> currentWeight (exerciseAt (updateExerciseWeight ''e1'' (Some 350) demo) 0 0) = 350
   \<and> clampWeight (toFixed1 350) = 300"
  by (simp add: updateExerciseWeight_def activePlan_def demo_def pushDay_def legDay_def bench_def
      squat_def exerciseAt_def toFixed1_def clampWeight_def Let_def)

text \<open>
  C4. \<open>updateExerciseWeight\<close> is idempotent: a second call with the same exercise id
  and the same value returns the state that the first call returned.
\<close>

theorem updateExerciseWeight_idempotent:
  "updateExerciseWeight exerciseId w (updateExerciseWeight exerciseId w s)
     = updateExerciseWeight exerciseId w s"
proof (cases w)
  case None
  then show ?thesis by (simp add: updateExerciseWeight_def)
next
  case (Some v)
  show ?thesis
  proof (cases "activePlan s = None \<or> v < 0")
    case True
    then show ?thesis using Some by (auto simp: shape_updateExerciseWeight)
  next
    case False
    let ?G = "map (onId exerciseId (weightTo (toFixed1 v)))"
    have first: "updateExerciseWeight exerciseId w s = inPlan (activePlanId s) ?G s"
      using Some False by (auto simp: shape_updateExerciseWeight)
    have "updateExerciseWeight exerciseId w (inPlan (activePlanId s) ?G s)
            = inPlan (activePlanId s) ?G (inPlan (activePlanId s) ?G s)"
      using Some False by (auto simp: shape_updateExerciseWeight activePlan_inPlan_None)
    also have "\<dots> = inPlan (activePlanId s) ?G s"
      by (rule inPlan_idem) (simp add: onId_weightTo_idem)
    finally show ?thesis by (simp add: first)
  qed
qed

lemma stems_step:
  "e' \<in> set (allExercises (step a s))
   \<Longrightarrow> (\<exists>e\<in>set (allExercises s). exStep e e') \<or> (fresh e' \<and> addedId a = Some (id_ex e'))"
  by (simp add: step_def stems_perform)

lemma step_keeps_setsInRange:
  assumes "\<forall>e\<in>set (allExercises s). setsInRange e"
  shows "\<forall>e\<in>set (allExercises (step a s)). setsInRange e"
proof
  fix e' assume "e' \<in> set (allExercises (step a s))"
  from stems_step [OF this] assms show "setsInRange e'"
    by (auto simp: exStep_def fresh_def)
qed

lemma run_keeps_setsInRange:
  "\<forall>e\<in>set (allExercises s). setsInRange e \<Longrightarrow> \<forall>e\<in>set (allExercises (run s as)). setsInRange e"
proof (induction as arbitrary: s)
  case Nil
  then show ?case by simp
next
  case (Cons a as)
  from Cons.prems have "\<forall>e\<in>set (allExercises (step a s)). setsInRange e"
    by (rule step_keeps_setsInRange)
  then show ?case using Cons.IH by simp
qed

lemma step_keeps_weights:
  assumes "\<forall>e\<in>set (allExercises s). currentWeight e \<le> bestWeight e"
  shows "\<forall>e\<in>set (allExercises (step a s)). currentWeight e \<le> bestWeight e"
proof
  fix e' assume "e' \<in> set (allExercises (step a s))"
  from stems_step [OF this] assms show "currentWeight e' \<le> bestWeight e'"
    by (auto simp: exStep_def fresh_def)
qed

lemma run_keeps_weights:
  "\<forall>e\<in>set (allExercises s). currentWeight e \<le> bestWeight e
   \<Longrightarrow> \<forall>e\<in>set (allExercises (run s as)). currentWeight e \<le> bestWeight e"
proof (induction as arbitrary: s)
  case Nil
  then show ?case by simp
next
  case (Cons a as)
  from Cons.prems have "\<forall>e\<in>set (allExercises (step a s)). currentWeight e \<le> bestWeight e"
    by (rule step_keeps_weights)
  then show ?case using Cons.IH by simp
qed

lemma startState_setsInRange: "\<forall>e\<in>set (allExercises (startState rp rh)). setsInRange e"
  by (auto simp: startState_def initState_def loadPlans_def allExercises_def setsInRange_normalize
           split: option.splits)

lemma startState_empty: "allExercises (startState None rh) = []"
  by (simp add: startState_def initState_def loadPlans_def allExercises_def)

lemma exerciseAt_updateExerciseMeta:
  assumes "i < length (plans s)" "id_plan (plans s ! i) = activePlanId s"
    "j < length (exercises (plans s ! i))" "id_ex (exerciseAt s i j) = eid"
  shows "exerciseAt (updateExerciseMeta eid patch s) i j = metaTo patch (exerciseAt s i j)"
proof -
  from assms(1,2) obtain a where "activePlan s = Some a"
    using activePlan_exists by blast
  with assms show ?thesis
    by (simp add: shape_updateExerciseMeta exerciseAt_inPlan onId_def)
qed

text \<open>
  C3. The counter of completed sets stays between 0 and the target: in the state that
  \<open>loadPlans\<close> builds from any stored payload, and after any sequence of events from
  there; every sequence of events keeps it from any state that has it. When
  \<open>updateExerciseMeta\<close> sets a new target, the counter of the exercise is clamped
  into the new range.
\<close>

theorem completedSets_within_target:
  "(\<forall>e\<in>set (allExercises (run (startState rawPlans rawHistory) actions)).
       0 \<le> completedSets e \<and> completedSets e \<le> targetSets e)
   \<and> ((\<forall>e\<in>set (allExercises s). 0 \<le> completedSets e \<and> completedSets e \<le> targetSets e) \<longrightarrow>
       (\<forall>e\<in>set (allExercises (run s actions)).
           0 \<le> completedSets e \<and> completedSets e \<le> targetSets e))
   \<and> (i < length (plans s) \<and> id_plan (plans s ! i) = activePlanId s
       \<and> j < length (exercises (plans s ! i)) \<and> id_ex (exerciseAt s i j) = exerciseId
       \<and> targetSets_patch patch = Some t \<and> t \<noteq> 0 \<longrightarrow>
       targetSets (exerciseAt (updateExerciseMeta exerciseId patch s) i j) = clampInt t 1 12
       \<and> completedSets (exerciseAt (updateExerciseMeta exerciseId patch s) i j)
           = clampInt (completedSets (exerciseAt s i j)) 0 (clampInt t 1 12)
       \<and> 0 \<le> completedSets (exerciseAt (updateExerciseMeta exerciseId patch s) i j)
       \<and> completedSets (exerciseAt (updateExerciseMeta exerciseId patch s) i j)
           \<le> targetSets (exerciseAt (updateExerciseMeta exerciseId patch s) i j))"
proof (intro conjI impI)
  show "\<forall>e\<in>set (allExercises (run (startState rawPlans rawHistory) actions)).
          0 \<le> completedSets e \<and> completedSets e \<le> targetSets e"
    using run_keeps_setsInRange [OF startState_setsInRange]
    by (simp add: setsInRange_def)
next
  assume "\<forall>e\<in>set (allExercises s). 0 \<le> completedSets e \<and> completedSets e \<le> targetSets e"
  then show "\<forall>e\<in>set (allExercises (run s actions)).
               0 \<le> completedSets e \<and> completedSets e \<le> targetSets e"
    using run_keeps_setsInRange [of s actions] by (simp add: setsInRange_def)
next
  assume h: "i < length (plans s) \<and> id_plan (plans s ! i) = activePlanId s
       \<and> j < length (exercises (plans s ! i)) \<and> id_ex (exerciseAt s i j) = exerciseId
       \<and> targetSets_patch patch = Some t \<and> t \<noteq> 0"
  then have eq: "exerciseAt (updateExerciseMeta exerciseId patch s) i j
                   = metaTo patch (exerciseAt s i j)"
    by (simp add: exerciseAt_updateExerciseMeta)
  from h have pt: "patchedTarget patch (exerciseAt s i j) = clampInt t 1 12"
    by (simp add: patchedTarget_def)
  show "targetSets (exerciseAt (updateExerciseMeta exerciseId patch s) i j) = clampInt t 1 12"
    by (simp add: eq metaTo_def pt)
  show "completedSets (exerciseAt (updateExerciseMeta exerciseId patch s) i j)
           = clampInt (completedSets (exerciseAt s i j)) 0 (clampInt t 1 12)"
    by (simp add: eq metaTo_def pt)
  show "0 \<le> completedSets (exerciseAt (updateExerciseMeta exerciseId patch s) i j)"
    by (simp add: eq metaTo_def pt clampInt_def)
  show "completedSets (exerciseAt (updateExerciseMeta exerciseId patch s) i j)
           \<le> targetSets (exerciseAt (updateExerciseMeta exerciseId patch s) i j)"
    by (simp add: eq metaTo_def pt clampInt_def)
qed

theorem completedSets_within_target_witness:
  "allExercises (run (startState legacyPayload None) [UpdateExerciseMeta ''e1'' (targetPatch 2)]) \<noteq> []
   \<and> 0 \<le> completedSets (hd (allExercises
            (run (startState legacyPayload None) [UpdateExerciseMeta ''e1'' (targetPatch 2)])))
   \<and> completedSets (hd (allExercises
            (run (startState legacyPayload None) [UpdateExerciseMeta ''e1'' (targetPatch 2)])))
       \<le> targetSets (hd (allExercises
            (run (startState legacyPayload None) [UpdateExerciseMeta ''e1'' (targetPatch 2)])))
   \<and> list_all (\<lambda>e. 0 \<le> completedSets e \<and> completedSets e \<le> targetSets e) (allExercises demo)
   \<and> allExercises (run demo [SetExerciseSets ''e1'' 7, SetExerciseSets ''e2'' (- 1)]) \<noteq> []
   \<and> 0 \<le> completedSets (hd (allExercises
            (run demo [SetExerciseSets ''e1'' 7, SetExerciseSets ''e2'' (- 1)])))
   \<and> completedSets (hd (allExercises
            (run demo [SetExerciseSets ''e1'' 7, SetExerciseSets ''e2'' (- 1)])))
       \<le> targetSets (hd (allExercises
            (run demo [SetExerciseSets ''e1'' 7, SetExerciseSets ''e2'' (- 1)])))
   \<and> targetSets (exerciseAt (updateExerciseMeta ''e1'' (targetPatch 1) demo) 0 0) = 1
   \<and> completedSets (exerciseAt (updateExerciseMeta ''e1'' (targetPatch 1) demo) 0 0) = 1"
proof -
  let ?R = "run (startState legacyPayload None) [UpdateExerciseMeta ''e1'' (targetPatch 2)]"
  let ?acts = "[SetExerciseSets ''e1'' 7, SetExerciseSets ''e2'' (- 1)]"
  note T = completedSets_within_target
             [of legacyPayload None "[UpdateExerciseMeta ''e1'' (targetPatch 2)]" demo 0 0 "''e1''"
                 "targetPatch 1" 1]
  note U = completedSets_within_target [of None None ?acts demo 0 0 "''e1''" "targetPatch 1" 1]
  have ne1: "allExercises ?R \<noteq> []"
    by (simp add: startState_def initState_def loadPlans_def loadHistory_def normalizeExercise_def
        syncActivePlanId_def step_def updateExerciseMeta_def activePlan_def
        allExercises_def legacyPayload_def targetPatch_def clampInt_def Let_def)
  then have mem1: "hd (allExercises ?R) \<in> set (allExercises ?R)" by simp
  have b1: "0 \<le> completedSets (hd (allExercises ?R))
            \<and> completedSets (hd (allExercises ?R)) \<le> targetSets (hd (allExercises ?R))"
    by (rule bspec [OF T [THEN conjunct1] mem1])
  have inv: "\<forall>e\<in>set (allExercises demo). 0 \<le> completedSets e \<and> completedSets e \<le> targetSets e"
    by (simp add: allExercises_def demo_def pushDay_def legDay_def bench_def squat_def)
  have ne2: "allExercises (run demo ?acts) \<noteq> []"
    by (simp add: syncActivePlanId_def step_def setExerciseSets_def activePlan_def
        allExercises_def demo_def pushDay_def legDay_def clampInt_def Let_def)
  then have mem2: "hd (allExercises (run demo ?acts)) \<in> set (allExercises (run demo ?acts))"
    by simp
  have b2: "0 \<le> completedSets (hd (allExercises (run demo ?acts)))
            \<and> completedSets (hd (allExercises (run demo ?acts)))
                \<le> targetSets (hd (allExercises (run demo ?acts)))"
    by (rule bspec [OF mp [OF U [THEN conjunct2, THEN conjunct1] inv] mem2])
  have hyp: "0 < length (plans demo) \<and> id_plan (plans demo ! 0) = activePlanId demo
       \<and> 0 < length (exercises (plans demo ! 0)) \<and> id_ex (exerciseAt demo 0 0) = ''e1''
       \<and> targetSets_patch (targetPatch 1) = Some 1 \<and> (1::int) \<noteq> 0"
    by (simp add: demo_def pushDay_def bench_def exerciseAt_def targetPatch_def)
  have cw: "completedSets (exerciseAt demo 0 0) = 2"
    by (simp add: demo_def pushDay_def bench_def exerciseAt_def)
  have b3: "targetSets (exerciseAt (updateExerciseMeta ''e1'' (targetPatch 1) demo) 0 0) = 1
       \<and> completedSets (exerciseAt (updateExerciseMeta ''e1'' (targetPatch 1) demo) 0 0) = 1"
    using mp [OF T [THEN conjunct2, THEN conjunct2] hyp] by (simp add: clampInt_def cw)
  from inv have inv': "list_all (\<lambda>e. 0 \<le> completedSets e \<and> completedSets e \<le> targetSets e)
                          (allExercises demo)"
    by (simp only: list_all_iff)
  show ?thesis
    by (intro conjI ne1 b1 [THEN conjunct1] b1 [THEN conjunct2] inv' ne2 b2 [THEN conjunct1]
        b2 [THEN conjunct2] b3 [THEN conjunct1] b3 [THEN conjunct2])
qed

lemma best_kept_step:
  assumes d: "distinct (map id_ex (allExercises s))" and f: "newIdsFresh a s"
    and e: "e \<in> set (allExercises s)" and e': "e' \<in> set (allExercises (step a s))"
    and same: "id_ex e' = id_ex e"
  shows "bestWeight e \<le> bestWeight e'"
proof -
  from stems_step [OF e']
  consider (old) e0 where "e0 \<in> set (allExercises s)" "exStep e0 e'"
    | (new) "addedId a = Some (id_ex e')"
    by blast
  then show ?thesis
  proof cases
    case old
    from old(2) same have "id_ex e0 = id_ex e" by (simp add: exStep_def)
    moreover from d have "inj_on id_ex (set (allExercises s))" by (simp add: distinct_map)
    ultimately have "e0 = e" using old(1) e by (auto dest: inj_onD)
    with old(2) show ?thesis by (simp add: exStep_def)
  next
    case new
    then obtain n w where "a = AddExercise (id_ex e') n w"
      by (cases a) simp_all
    with f have "id_ex e' \<notin> id_ex ` set (allExercises s)" by simp
    with e same show ?thesis by force
  qed
qed

lemma allExercises_inPlan:
  "allExercises (inPlan a G s)
   = concat (map (\<lambda>p. if id_plan p = a then G (exercises p) else exercises p) (plans s))"
proof -
  have "exercises (if id_plan p = a then p\<lparr>exercises := G (exercises p)\<rparr> else p)
        = (if id_plan p = a then G (exercises p) else exercises p)" for p :: TrainingPlan
    by simp
  then show ?thesis by (simp add: allExercises_def inPlan_def comp_def)
qed

lemma distinct_sub_mset2:
  assumes sub: "mset xs \<subseteq># mset ys" and d: "distinct ys"
  shows "distinct xs"
proof -
  have le: "count (mset xs) x \<le> 1" for x
  proof -
    have "count (mset xs) x \<le> count (mset ys) x"
      using sub by (rule mset_subset_eq_count)
    also have "\<dots> \<le> 1" using d by (simp add: distinct_count_atmost_1)
    finally show ?thesis .
  qed
  have "count (mset xs) x = (if x \<in> set xs then 1 else 0)" for x
  proof (cases "x \<in> set xs")
    case True
    then have "count (mset xs) x \<noteq> 0" by (simp add: count_mset_0_iff)
    with le [of x] have "count (mset xs) x = 1" by linarith
    with True show ?thesis by simp
  next
    case False
    then show ?thesis by (simp add: count_mset_0_iff)
  qed
  then show ?thesis by (simp add: distinct_count_atmost_1)
qed

lemma ids_sub_concat:
  assumes "\<And>p. p \<in> set ps \<Longrightarrow> mset (map id_ex (h p)) \<subseteq># mset (map id_ex (exercises p))"
  shows "mset (map id_ex (concat (map h ps))) \<subseteq># mset (map id_ex (concat (map exercises ps)))"
  using assms
proof (induction ps)
  case Nil
  then show ?case by simp
next
  case (Cons p ps)
  have "mset (map id_ex (h p)) \<subseteq># mset (map id_ex (exercises p))"
    by (rule Cons.prems) simp
  moreover have "mset (map id_ex (concat (map h ps)))
                 \<subseteq># mset (map id_ex (concat (map exercises ps)))"
    by (rule Cons.IH) (rule Cons.prems, simp)
  ultimately show ?case
    by (simp add: subset_mset.add_mono del: mset_map)
qed

lemma distinct_ids_inPlan:
  assumes G: "\<And>xs. mset (map id_ex (G xs)) \<subseteq># mset (map id_ex xs)"
    and d: "distinct (map id_ex (allExercises s))"
  shows "distinct (map id_ex (allExercises (inPlan a G s)))"
proof -
  let ?h = "\<lambda>p. if id_plan p = a then G (exercises p) else exercises p"
  have "mset (map id_ex (concat (map ?h (plans s))))
        \<subseteq># mset (map id_ex (concat (map exercises (plans s))))"
    by (rule ids_sub_concat) (simp add: G del: mset_map)
  then have "mset (map id_ex (allExercises (inPlan a G s))) \<subseteq># mset (map id_ex (allExercises s))"
    by (simp only: allExercises_inPlan) (simp only: allExercises_def)
  then show ?thesis using d by (rule distinct_sub_mset2)
qed

lemma ids_map_onId:
  assumes "\<And>e. exStep e (f e)"
  shows "map id_ex (map (onId eid f) xs) = map id_ex xs"
proof -
  have "id_ex (f e) = id_ex e" for e using assms [of e] by (simp add: exStep_def)
  then show ?thesis by (simp add: onId_def)
qed

lemma wellFormed_inPlan:
  assumes G: "\<And>xs. mset (map id_ex (G xs)) \<subseteq># mset (map id_ex xs)"
    and w: "wellFormed s"
  shows "wellFormed (inPlan a G s)"
  using w by (simp add: wellFormed_def distinct_ids_inPlan [OF G])

lemma wellFormed_inPlan_onId:
  assumes "\<And>e. exStep e (f e)" and "wellFormed s"
  shows "wellFormed (inPlan a (map (onId eid f)) s)"
  by (rule wellFormed_inPlan [OF _ assms(2)]) (simp only: ids_map_onId [OF assms(1)] subset_mset.order_refl)

lemma ids_add_concat:
  assumes "distinct (map id_plan ps)"
  shows "mset (map id_ex (concat (map (\<lambda>p. if id_plan p = a then exercises p @ [new] else exercises p) ps)))
         \<subseteq># add_mset (id_ex new) (mset (map id_ex (concat (map exercises ps))))"
  using assms
proof (induction ps)
  case Nil
  then show ?case by simp
next
  case (Cons p ps)
  let ?h = "\<lambda>p. if id_plan p = a then exercises p @ [new] else exercises p"
  from Cons.prems have dps: "distinct (map id_plan ps)" and np: "id_plan p \<notin> id_plan ` set ps"
    by simp_all
  show ?case
  proof (cases "id_plan p = a")
    case True
    have "id_plan q \<noteq> a" if "q \<in> set ps" for q
      using that np True by (metis imageI)
    then have "concat (map ?h ps) = concat (map exercises ps)"
      by (intro arg_cong [where f = concat] map_cong) simp_all
    with True show ?thesis by simp
  next
    case False
    have "mset (map id_ex (concat (map ?h ps)))
          \<subseteq># add_mset (id_ex new) (mset (map id_ex (concat (map exercises ps))))"
      by (rule Cons.IH [OF dps])
    then have "mset (map id_ex (exercises p)) + mset (map id_ex (concat (map ?h ps)))
          \<subseteq># mset (map id_ex (exercises p))
              + add_mset (id_ex new) (mset (map id_ex (concat (map exercises ps))))"
      by (rule subset_mset.add_left_mono)
    with False show ?thesis by (simp del: mset_map)
  qed
qed

lemma wellFormed_add:
  assumes w: "wellFormed s" and f: "id_ex new \<notin> set (map id_ex (allExercises s))"
  shows "wellFormed (inPlan a (\<lambda>xs. xs @ [new]) s)"
proof -
  from w have dp: "distinct (map id_plan (plans s))" and de: "distinct (map id_ex (allExercises s))"
    by (simp_all add: wellFormed_def)
  have "mset (map id_ex (allExercises (inPlan a (\<lambda>xs. xs @ [new]) s)))
        \<subseteq># add_mset (id_ex new) (mset (map id_ex (allExercises s)))"
    using ids_add_concat [OF dp, of a new]
    by (simp only: allExercises_inPlan) (simp only: allExercises_def)
  then have "mset (map id_ex (allExercises (inPlan a (\<lambda>xs. xs @ [new]) s)))
        \<subseteq># mset (id_ex new # map id_ex (allExercises s))"
    by (simp del: mset_map)
  moreover have "distinct (id_ex new # map id_ex (allExercises s))"
    using de f by simp
  ultimately have "distinct (map id_ex (allExercises (inPlan a (\<lambda>xs. xs @ [new]) s)))"
    by (rule distinct_sub_mset2)
  with dp show ?thesis by (simp add: wellFormed_def)
qed

lemma ids_sub_filter_plans:
  "mset (map id_ex (concat (map exercises (filter P ps))))
   \<subseteq># mset (map id_ex (concat (map exercises ps)))"
proof (induction ps)
  case Nil
  then show ?case by simp
next
  case (Cons p ps)
  show ?case
  proof (cases "P p")
    case True
    with Cons.IH show ?thesis by (simp add: subset_mset.add_left_mono del: mset_map)
  next
    case False
    from Cons.IH have "mset (map id_ex (concat (map exercises (filter P ps))))
          \<subseteq># mset (map id_ex (exercises p)) + mset (map id_ex (concat (map exercises ps)))"
      by (rule subset_mset.order_trans) simp
    with False show ?thesis by (simp del: mset_map)
  qed
qed

lemma ids_reload:
  "map id_plan (plans (reload s)) = map id_plan (plans s)"
  "map id_ex (allExercises (reload s)) = map id_ex (allExercises s)"
proof -
  show "map id_plan (plans (reload s)) = map id_plan (plans s)"
    by (simp add: reload_def initState_def loadPlans_def storePlan_def comp_def)
  have "id_ex (normalizeExercise (storeExercise e)) = id_ex e" for e
    by (simp add: normalizeExercise_def storeExercise_def Let_def)
  then show "map id_ex (allExercises (reload s)) = map id_ex (allExercises s)"
    by (simp add: reload_def initState_def loadPlans_def storePlan_def allExercises_def
        comp_def map_concat)
qed

lemma wellFormed_history [simp]: "wellFormed (s\<lparr>history := h\<rparr>) = wellFormed s"
  by (simp add: wellFormed_def allExercises_def)

lemma wellFormed_perform:
  assumes w: "wellFormed s" and f: "newIdsFresh a s"
  shows "wellFormed (perform a s)"
proof (cases a)
  case (CreatePlan newId n)
  with w f show ?thesis
    by (simp add: createPlan_def wellFormed_def allExercises_def Let_def)
next
  case (AddExercise newId n w')
  with w f show ?thesis
    by (auto simp: shape_addExercise wellFormed_add split: option.splits)
next
  case (UpdateExerciseWeight eid w')
  with w show ?thesis
    by (auto simp: shape_updateExerciseWeight wellFormed_inPlan_onId exStep_weightTo
             split: option.splits)
next
  case (ChangeExerciseByDelta eid d)
  with w show ?thesis
    by (simp add: shape_changeExerciseByDelta wellFormed_inPlan_onId exStep_deltaStep)
next
  case (SetExerciseCompleted eid c)
  with w show ?thesis
    by (simp add: shape_setExerciseCompleted wellFormed_inPlan_onId exStep_completedTo)
next
  case (SetExerciseSets eid n)
  with w show ?thesis
    by (simp add: shape_setExerciseSets wellFormed_inPlan_onId exStep_setsTo)
next
  case (UpdateExerciseMeta eid p)
  with w show ?thesis
    by (simp add: shape_updateExerciseMeta wellFormed_inPlan_onId exStep_metaTo)
next
  case (DeleteExercise eid)
  have "mset (map id_ex (filter (\<lambda>e. id_ex e \<noteq> eid) xs)) \<subseteq># mset (map id_ex xs)" for xs
    by (simp add: image_mset_subseteq_mono)
  from wellFormed_inPlan [where G = "filter (\<lambda>e. id_ex e \<noteq> eid)", OF this w] w DeleteExercise
  show ?thesis by (simp add: shape_deleteExercise)
next
  case (RenameActivePlan n)
  have same: "id_plan (if c then p\<lparr>name_plan := m\<rparr> else p) = id_plan p"
    for c and p :: TrainingPlan and m
    by simp
  have "map id_plan (plans (renameActivePlan n s)) = map id_plan (plans s)"
    by (simp add: renameActivePlan_def Let_def comp_def same split: option.splits)
  with w RenameActivePlan show ?thesis by (simp add: wellFormed_def)
next
  case DeleteActivePlan
  from w have "distinct (map id_ex (concat (map exercises (plans s))))"
    by (simp add: wellFormed_def allExercises_def)
  then have "distinct (map id_ex (concat (map exercises (filter P (plans s)))))" for P
    by (rule distinct_sub_mset2 [OF ids_sub_filter_plans])
  with w DeleteActivePlan show ?thesis
    by (simp add: deleteActivePlan_def wellFormed_def allExercises_def distinct_map_filter
             split: option.splits)
next
  case (MoveExercise d t)
  have "mset (map id_ex (moveIn d t xs)) \<subseteq># mset (map id_ex xs)" for xs
    by (simp add: mset_moveIn)
  from wellFormed_inPlan [where G = "moveIn d t", OF this w] w MoveExercise
  show ?thesis by (simp add: shape_moveExercise)
next
  case (FinishTraining newId now)
  have "mset (map id_ex (map resetSets xs)) \<subseteq># mset (map id_ex xs)" for xs
    by (simp add: resetSets_def comp_def)
  from wellFormed_inPlan [where G = "map resetSets", OF this w] w FinishTraining
  show ?thesis by (simp add: shape_finishTraining split: option.splits)
next
  case (SelectPlan pid)
  with w show ?thesis by (simp add: wellFormed_def allExercises_def)
next
  case Reload
  with w show ?thesis by (simp add: wellFormed_def ids_reload)
qed

lemma wellFormed_step: "wellFormed s \<Longrightarrow> newIdsFresh a s \<Longrightarrow> wellFormed (step a s)"
  using wellFormed_perform [of s a] by (simp add: step_def wellFormed_def)

lemma plans_addExercise_nth:
  assumes "i < length (plans s)" "id_plan (plans s ! i) = activePlanId s" "trim n \<noteq> []" "0 \<le> w"
  shows "exercises (plans (addExercise newId n (Some w) s) ! i)
         = exercises (plans s ! i) @
             [\<lparr> id_ex = newId, name_ex = trim n, currentWeight = toFixed1 w,
                previousWeight = None, bestWeight = toFixed1 w, completed = False,
                notes_ex = [], targetSets = 3, completedSets = 0 \<rparr>]"
proof -
  from assms(1,2) obtain a where "activePlan s = Some a"
    using activePlan_exists by blast
  with assms show ?thesis
    by (simp add: shape_addExercise inPlan_nth)
qed

text \<open>
  C9. The current weight never exceeds the best weight: in every state reached from an
  empty storage by any sequence of events, restarts of the application included, and every
  sequence of events keeps it from any state that has it. No event lowers a best weight:
  when the exercises of the store have different ids and the id that \<open>createId\<close> gave
  to the event is not in use, every exercise after the event that carries the id of an
  exercise before the event has a best weight that is not lower; such an event also keeps
  the ids of the plans and of the exercises different, so the same holds for the next
  event. \<open>addExercise\<close> appends an exercise whose current and best weight are the
  rounded start weight, and \<open>normalizeExercise\<close> reads the stored weights as they are,
  with the current weight as best weight when the stored record has none: a stored record
  whose best weight is absent or not below its stored current weight is read as an exercise
  whose current weight does not exceed its best weight.
\<close>

theorem bestWeight_bounds_currentWeight:
  "(\<forall>e\<in>set (allExercises (run (startState None rawHistory) actions)).
       currentWeight e \<le> bestWeight e)
   \<and> ((\<forall>e\<in>set (allExercises s). currentWeight e \<le> bestWeight e) \<longrightarrow>
       (\<forall>e\<in>set (allExercises (run s actions)). currentWeight e \<le> bestWeight e))
   \<and> (distinct (map id_ex (allExercises s)) \<and> newIdsFresh a s \<longrightarrow>
       (\<forall>e\<in>set (allExercises s). \<forall>e'\<in>set (allExercises (step a s)).
           id_ex e' = id_ex e \<longrightarrow> bestWeight e \<le> bestWeight e'))
   \<and> (wellFormed s \<and> newIdsFresh a s \<longrightarrow> wellFormed (step a s))
   \<and> (i < length (plans s) \<and> id_plan (plans s ! i) = activePlanId s \<and> trim n \<noteq> [] \<and> 0 \<le> w \<longrightarrow>
       exercises (plans (addExercise newId n (Some w) s) ! i)
         = exercises (plans s ! i) @
             [\<lparr> id_ex = newId, name_ex = trim n, currentWeight = toFixed1 w,
                previousWeight = None, bestWeight = toFixed1 w, completed = False,
                notes_ex = [], targetSets = 3, completedSets = 0 \<rparr>])
   \<and> currentWeight (normalizeExercise (storeExercise e)) = currentWeight e
   \<and> bestWeight (normalizeExercise (storeExercise e)) = bestWeight e
   \<and> (bestWeight_in x = None \<longrightarrow>
       bestWeight (normalizeExercise x) = currentWeight (normalizeExercise x))
   \<and> ((\<forall>b. bestWeight_in y = Some b \<longrightarrow>
            (case currentWeight_in y of None \<Rightarrow> 0 | Some c \<Rightarrow> c) \<le> b) \<longrightarrow>
       currentWeight (normalizeExercise y) \<le> bestWeight (normalizeExercise y))"
proof (intro conjI impI)
  show "\<forall>e\<in>set (allExercises (run (startState None rawHistory) actions)).
          currentWeight e \<le> bestWeight e"
    by (rule run_keeps_weights) (simp add: startState_empty)
next
  assume "\<forall>e\<in>set (allExercises s). currentWeight e \<le> bestWeight e"
  then show "\<forall>e\<in>set (allExercises (run s actions)). currentWeight e \<le> bestWeight e"
    by (rule run_keeps_weights)
next
  assume "distinct (map id_ex (allExercises s)) \<and> newIdsFresh a s"
  then show "\<forall>e\<in>set (allExercises s). \<forall>e'\<in>set (allExercises (step a s)).
               id_ex e' = id_ex e \<longrightarrow> bestWeight e \<le> bestWeight e'"
    by (auto intro: best_kept_step)
next
  assume "wellFormed s \<and> newIdsFresh a s"
  then show "wellFormed (step a s)" by (simp add: wellFormed_step)
next
  assume "i < length (plans s) \<and> id_plan (plans s ! i) = activePlanId s \<and> trim n \<noteq> [] \<and> 0 \<le> w"
  then show "exercises (plans (addExercise newId n (Some w) s) ! i)
         = exercises (plans s ! i) @
             [\<lparr> id_ex = newId, name_ex = trim n, currentWeight = toFixed1 w,
                previousWeight = None, bestWeight = toFixed1 w, completed = False,
                notes_ex = [], targetSets = 3, completedSets = 0 \<rparr>]"
    by (simp add: plans_addExercise_nth)
next
  show "currentWeight (normalizeExercise (storeExercise e)) = currentWeight e"
    by (simp add: normalizeExercise_def storeExercise_def Let_def)
  show "bestWeight (normalizeExercise (storeExercise e)) = bestWeight e"
    by (simp add: normalizeExercise_def storeExercise_def Let_def)
next
  assume "bestWeight_in x = None"
  then show "bestWeight (normalizeExercise x) = currentWeight (normalizeExercise x)"
    by (simp add: normalizeExercise_def Let_def)
next
  assume "\<forall>b. bestWeight_in y = Some b \<longrightarrow>
            (case currentWeight_in y of None \<Rightarrow> 0 | Some c \<Rightarrow> c) \<le> b"
  then show "currentWeight (normalizeExercise y) \<le> bestWeight (normalizeExercise y)"
    by (cases "bestWeight_in y") (simp_all add: normalizeExercise_def Let_def)
qed

theorem bestWeight_bounds_currentWeight_witness:
  "allExercises (run (startState None None)
       [CreatePlan ''p1'' ''Push Day'', AddExercise ''e1'' ''Bench'' (Some 20),
        ChangeExerciseByDelta ''e1'' (5 / 2), ChangeExerciseByDelta ''e1'' (5 / 2), Reload]) \<noteq> []
   \<and> currentWeight (hd (allExercises (run (startState None None)
       [CreatePlan ''p1'' ''Push Day'', AddExercise ''e1'' ''Bench'' (Some 20),
        ChangeExerciseByDelta ''e1'' (5 / 2), ChangeExerciseByDelta ''e1'' (5 / 2), Reload])))
       \<le> bestWeight (hd (allExercises (run (startState None None)
       [CreatePlan ''p1'' ''Push Day'', AddExercise ''e1'' ''Bench'' (Some 20),
        ChangeExerciseByDelta ''e1'' (5 / 2), ChangeExerciseByDelta ''e1'' (5 / 2), Reload])))
   \<and> list_all (\<lambda>e. currentWeight e \<le> bestWeight e) (allExercises demo)
   \<and> allExercises (run demo [UpdateExerciseWeight ''e1'' (Some 30)]) \<noteq> []
   \<and> currentWeight (hd (allExercises (run demo [UpdateExerciseWeight ''e1'' (Some 30)])))
       \<le> bestWeight (hd (allExercises (run demo [UpdateExerciseWeight ''e1'' (Some 30)])))
   \<and> distinct (map id_ex (allExercises soloDemo))
   \<and> squat \<in> set (allExercises soloDemo)
   \<and> last (allExercises (step (ChangeExerciseByDelta ''e2'' (- 5)) soloDemo))
       \<in> set (allExercises (step (ChangeExerciseByDelta ''e2'' (- 5)) soloDemo))
   \<and> id_ex (last (allExercises (step (ChangeExerciseByDelta ''e2'' (- 5)) soloDemo))) = id_ex squat
   \<and> currentWeight (last (allExercises (step (ChangeExerciseByDelta ''e2'' (- 5)) soloDemo))) = 55
   \<and> 65 \<le> bestWeight (last (allExercises (step (ChangeExerciseByDelta ''e2'' (- 5)) soloDemo)))
   \<and> wellFormed soloDemo
   \<and> newIdsFresh (AddExercise ''e3'' '' Row '' (Some (401 / 10))) soloDemo
   \<and> wellFormed (step (AddExercise ''e3'' '' Row '' (Some (401 / 10))) soloDemo)
   \<and> exercises (plans (addExercise ''e3'' '' Row '' (Some (401 / 10)) demo) ! 0)
       = [bench, squat,
          \<lparr> id_ex = ''e3'', name_ex = ''Row'', currentWeight = 401 / 10,
            previousWeight = None, bestWeight = 401 / 10, completed = False,
            notes_ex = [], targetSets = 3, completedSets = 0 \<rparr>]
   \<and> bestWeight (normalizeExercise
         \<lparr> id_in = ''e1'', name_in = ''Bench'', currentWeight_in = Some 20,
           previousWeight_in = None, bestWeight_in = None, completed_in = None,
           notes_in = None, targetSets_in = None, completedSets_in = None \<rparr>)
       = currentWeight (normalizeExercise
         \<lparr> id_in = ''e1'', name_in = ''Bench'', currentWeight_in = Some 20,
           previousWeight_in = None, bestWeight_in = None, completed_in = None,
           notes_in = None, targetSets_in = None, completedSets_in = None \<rparr>)
   \<and> currentWeight (normalizeExercise (storeExercise squat))
       \<le> bestWeight (normalizeExercise (storeExercise squat))"
proof -
  let ?acts = "[CreatePlan ''p1'' ''Push Day'', AddExercise ''e1'' ''Bench'' (Some 20),
        ChangeExerciseByDelta ''e1'' (5 / 2), ChangeExerciseByDelta ''e1'' (5 / 2), Reload]"
  let ?R = "run (startState None None) ?acts"
  let ?upd = "UpdateExerciseWeight ''e1'' (Some 30)"
  let ?down = "ChangeExerciseByDelta ''e2'' (- 5)"
  let ?add = "AddExercise ''e3'' '' Row '' (Some (401 / 10))"
  let ?x = "\<lparr> id_in = ''e1'', name_in = ''Bench'', currentWeight_in = Some 20,
           previousWeight_in = None, bestWeight_in = None, completed_in = None,
           notes_in = None, targetSets_in = None, completedSets_in = None \<rparr>"
  note T = bestWeight_bounds_currentWeight
             [of None ?acts demo ?upd 0 "'' Row ''" "401 / 10" "''e3''" bench ?x "storeExercise squat"]
  note U = bestWeight_bounds_currentWeight
             [of None "[?upd]" demo ?upd 0 "'' Row ''" "401 / 10" "''e3''" bench ?x "storeExercise squat"]
  note V = bestWeight_bounds_currentWeight
             [of None "[?upd]" soloDemo ?down 0 "'' Row ''" "401 / 10" "''e3''" bench ?x
                 "storeExercise squat"]
  note W = bestWeight_bounds_currentWeight
             [of None "[?upd]" soloDemo ?add 0 "'' Row ''" "401 / 10" "''e3''" bench ?x
                 "storeExercise squat"]
  have ne1: "allExercises ?R \<noteq> []"
    by (simp add: startState_def initState_def loadPlans_def loadHistory_def reload_def
        storePlan_def syncActivePlanId_def step_def createPlan_def addExercise_def
        changeExerciseByDelta_def activePlan_def allExercises_def trim_def isSpace_def
        toFixed1_def clampWeight_def Let_def)
  then have mem1: "hd (allExercises ?R) \<in> set (allExercises ?R)" by simp
  have b1: "currentWeight (hd (allExercises ?R)) \<le> bestWeight (hd (allExercises ?R))"
    by (rule bspec [OF T [THEN conjunct1] mem1])
  have inv: "\<forall>e\<in>set (allExercises demo). currentWeight e \<le> bestWeight e"
    by (simp add: allExercises_def demo_def pushDay_def legDay_def bench_def squat_def)
  have ne2: "allExercises (run demo [?upd]) \<noteq> []"
    by (simp add: syncActivePlanId_def step_def updateExerciseWeight_def activePlan_def
        allExercises_def demo_def pushDay_def legDay_def Let_def)
  then have mem2: "hd (allExercises (run demo [?upd])) \<in> set (allExercises (run demo [?upd]))"
    by simp
  have b2: "currentWeight (hd (allExercises (run demo [?upd])))
            \<le> bestWeight (hd (allExercises (run demo [?upd])))"
    by (rule bspec [OF mp [OF U [THEN conjunct2, THEN conjunct1] inv] mem2])
  have dist: "distinct (map id_ex (allExercises soloDemo))"
    by (simp add: allExercises_def soloDemo_def pushDay_def bench_def squat_def)
  have fr: "newIdsFresh ?down soloDemo" by simp
  have pre: "squat \<in> set (allExercises soloDemo)"
    by (simp add: allExercises_def soloDemo_def pushDay_def)
  have post: "allExercises (step ?down soloDemo)
              = [bench, squat\<lparr>previousWeight := Some 60, currentWeight := 55, completed := False\<rparr>]"
    by (simp add: syncActivePlanId_def step_def changeExerciseByDelta_def activePlan_def
        allExercises_def soloDemo_def pushDay_def bench_def squat_def toFixed1_def
        clampWeight_def Let_def)
  have mem3: "last (allExercises (step ?down soloDemo)) \<in> set (allExercises (step ?down soloDemo))"
    by (simp add: post)
  have same: "id_ex (last (allExercises (step ?down soloDemo))) = id_ex squat"
    by (simp add: post)
  have cur: "currentWeight (last (allExercises (step ?down soloDemo))) = 55"
    by (simp add: post)
  note M = mp [OF V [THEN conjunct2, THEN conjunct2, THEN conjunct1] conjI [OF dist fr]]
  have "bestWeight squat \<le> bestWeight (last (allExercises (step ?down soloDemo)))"
    by (rule mp [OF bspec [OF bspec [OF M pre] mem3] same])
  then have b3: "65 \<le> bestWeight (last (allExercises (step ?down soloDemo)))"
    by (simp add: squat_def)
  have wf: "wellFormed soloDemo"
    by (simp add: wellFormed_def allExercises_def soloDemo_def pushDay_def bench_def squat_def)
  have fr2: "newIdsFresh ?add soloDemo"
    by (simp add: allExercises_def soloDemo_def pushDay_def bench_def squat_def)
  have b3w: "wellFormed (step ?add soloDemo)"
    by (rule mp [OF W [THEN conjunct2, THEN conjunct2, THEN conjunct2, THEN conjunct1]
                    conjI [OF wf fr2]])
  note T5 = T [THEN conjunct2, THEN conjunct2, THEN conjunct2, THEN conjunct2]
  have hyp: "0 < length (plans demo) \<and> id_plan (plans demo ! 0) = activePlanId demo
             \<and> trim '' Row '' \<noteq> [] \<and> (0::real) \<le> 401 / 10"
    by (simp add: demo_def pushDay_def trim_def isSpace_def)
  have b4: "exercises (plans (addExercise ''e3'' '' Row '' (Some (401 / 10)) demo) ! 0)
       = [bench, squat,
          \<lparr> id_ex = ''e3'', name_ex = ''Row'', currentWeight = 401 / 10,
            previousWeight = None, bestWeight = 401 / 10, completed = False,
            notes_ex = [], targetSets = 3, completedSets = 0 \<rparr>]"
    using mp [OF T5 [THEN conjunct1] hyp]
    by (simp add: demo_def pushDay_def trim_def isSpace_def toFixed1_def)
  note T8 = T5 [THEN conjunct2, THEN conjunct2, THEN conjunct2]
  have none: "bestWeight_in ?x = None" by simp
  have b5: "bestWeight (normalizeExercise ?x) = currentWeight (normalizeExercise ?x)"
    by (rule mp [OF T8 [THEN conjunct1] none])
  have stored: "\<forall>b. bestWeight_in (storeExercise squat) = Some b \<longrightarrow>
                  (case currentWeight_in (storeExercise squat) of None \<Rightarrow> 0 | Some c \<Rightarrow> c) \<le> b"
    by (simp add: storeExercise_def squat_def)
  have b6: "currentWeight (normalizeExercise (storeExercise squat))
            \<le> bestWeight (normalizeExercise (storeExercise squat))"
    by (rule mp [OF T8 [THEN conjunct2] stored])
  from inv have inv': "list_all (\<lambda>e. currentWeight e \<le> bestWeight e) (allExercises demo)"
    by (simp only: list_all_iff)
  show ?thesis
    by (intro conjI ne1 b1 inv' ne2 b2 dist pre mem3 same cur b3 wf fr2 b3w b4 b5 b6)
qed

lemma finishTraining_active:
  assumes "activePlan s = Some active" "exercises active \<noteq> []"
  shows "finishTraining newId now s
         = (inPlan (activePlanId s) (map resetSets) s)
             \<lparr>history := \<lparr> id_entry = newId, dateIso = now, planId = id_plan active,
                            planName = name_plan active,
                            exercises_entry = map snapshot (exercises active) \<rparr>
                          # take 39 (history s)\<rparr>"
proof -
  have "take 40 (x # xs) = x # take 39 xs" for x :: TrainingHistoryEntry and xs
    by (simp add: take_Cons')
  with assms show ?thesis by (simp add: shape_finishTraining)
qed

lemma finishTraining_idle:
  assumes "activePlan s = None \<or> (\<exists>active. activePlan s = Some active \<and> exercises active = [])"
  shows "finishTraining newId now s = s"
  using assms by (auto simp: shape_finishTraining)

lemma history_perform:
  assumes "\<forall>newId now. a \<noteq> FinishTraining newId now"
  shows "history (perform a s) = history s"
proof (cases a)
  case (CreatePlan newId n)
  then show ?thesis by (simp add: createPlan_def Let_def)
next
  case (AddExercise newId n w)
  then show ?thesis by (simp add: shape_addExercise split: option.splits)
next
  case (UpdateExerciseWeight eid w)
  then show ?thesis by (simp add: shape_updateExerciseWeight split: option.splits)
next
  case (ChangeExerciseByDelta eid d)
  then show ?thesis by (simp add: shape_changeExerciseByDelta)
next
  case (SetExerciseCompleted eid c)
  then show ?thesis by (simp add: shape_setExerciseCompleted)
next
  case (SetExerciseSets eid n)
  then show ?thesis by (simp add: shape_setExerciseSets)
next
  case (UpdateExerciseMeta eid p)
  then show ?thesis by (simp add: shape_updateExerciseMeta)
next
  case (DeleteExercise eid)
  then show ?thesis by (simp add: shape_deleteExercise)
next
  case (RenameActivePlan n)
  then show ?thesis by (simp add: renameActivePlan_def Let_def split: option.splits)
next
  case DeleteActivePlan
  then show ?thesis by (simp add: deleteActivePlan_def split: option.splits)
next
  case (MoveExercise d t)
  then show ?thesis by (simp add: shape_moveExercise)
next
  case (FinishTraining newId now)
  with assms show ?thesis by simp
next
  case (SelectPlan pid)
  then show ?thesis by simp
next
  case Reload
  then show ?thesis by (simp add: reload_def initState_def loadHistory_def)
qed

lemma finishWorkout_history:
  assumes "activePlan_v3 s = Some active" "exercises3 active \<noteq> []"
  shows "history3 (finishWorkout newId now s)
         = \<lparr> id_entry3 = newId, dateIso3 = now, planName3 = name_plan3 active,
             exercises_entry3 = map snapshot_v3 (exercises3 active) \<rparr> # take 59 (history3 s)"
proof -
  have "take 60 (x # xs) = x # take 59 xs" for x :: TrainingHistoryEntry_v3 and xs
    by (simp add: take_Cons')
  with assms show ?thesis by (simp add: finishWorkout_def Let_def)
qed

text \<open>
  C7 (as amended). The history is append-only and ordered by recency, with a cap of 40
  entries (60 in the variant of part_001): a \<open>finishTraining\<close> that finds an active
  plan with an exercise puts the new entry at index 0, followed by the 39 most recent older
  entries in their order, so the history has at most 40 entries if it had at most 40; any
  other event, a restart included, leaves the history as it is. In the variant,
  \<open>finishWorkout\<close> puts the new entry in front of the 59 most recent older entries and
  \<open>moveExerciseByOffset\<close> leaves the history as it is.
\<close>

theorem history_append_only_capped:
  "(activePlan s = Some active \<and> exercises active \<noteq> [] \<longrightarrow>
      history (finishTraining newId now s)
        = \<lparr> id_entry = newId, dateIso = now, planId = id_plan active,
            planName = name_plan active,
            exercises_entry = map snapshot (exercises active) \<rparr> # take 39 (history s)
      \<and> length (history (finishTraining newId now s)) = min 40 (Suc (length (history s))))
   \<and> (activePlan s = None \<or> (\<exists>p. activePlan s = Some p \<and> exercises p = []) \<longrightarrow>
      history (finishTraining newId now s) = history s)
   \<and> ((\<forall>newId now. a \<noteq> FinishTraining newId now) \<longrightarrow> history (step a s) = history s)
   \<and> (activePlan_v3 s3 = Some active3 \<and> exercises3 active3 \<noteq> [] \<longrightarrow>
      history3 (finishWorkout newId now s3)
        = \<lparr> id_entry3 = newId, dateIso3 = now, planName3 = name_plan3 active3,
            exercises_entry3 = map snapshot_v3 (exercises3 active3) \<rparr> # take 59 (history3 s3)
      \<and> length (history3 (finishWorkout newId now s3)) = min 60 (Suc (length (history3 s3))))
   \<and> history3 (moveExerciseByOffset exerciseId offset s3) = history3 s3"
proof (intro conjI impI)
  assume h: "activePlan s = Some active \<and> exercises active \<noteq> []"
  then show "history (finishTraining newId now s)
        = \<lparr> id_entry = newId, dateIso = now, planId = id_plan active,
            planName = name_plan active,
            exercises_entry = map snapshot (exercises active) \<rparr> # take 39 (history s)"
    by (simp add: finishTraining_active)
  from h show "length (history (finishTraining newId now s)) = min 40 (Suc (length (history s)))"
    by (simp add: finishTraining_active)
next
  assume "activePlan s = None \<or> (\<exists>p. activePlan s = Some p \<and> exercises p = [])"
  then show "history (finishTraining newId now s) = history s"
    by (simp add: finishTraining_idle)
next
  assume "\<forall>newId now. a \<noteq> FinishTraining newId now"
  then show "history (step a s) = history s"
    by (simp add: step_def history_perform)
next
  assume h: "activePlan_v3 s3 = Some active3 \<and> exercises3 active3 \<noteq> []"
  then show "history3 (finishWorkout newId now s3)
        = \<lparr> id_entry3 = newId, dateIso3 = now, planName3 = name_plan3 active3,
            exercises_entry3 = map snapshot_v3 (exercises3 active3) \<rparr> # take 59 (history3 s3)"
    by (simp add: finishWorkout_history)
  from h show "length (history3 (finishWorkout newId now s3)) = min 60 (Suc (length (history3 s3)))"
    by (simp add: finishWorkout_history)
next
  show "history3 (moveExerciseByOffset exerciseId offset s3) = history3 s3"
    by (simp add: moveExerciseByOffset_def split: option.splits)
qed

lemma activePlan_demo: "activePlan demo = Some pushDay"
  by (simp add: activePlan_def demo_def pushDay_def)

lemma activePlan_fullDemo: "activePlan fullDemo = Some pushDay"
  by (simp add: activePlan_def fullDemo_def demo_def pushDay_def)

lemma activePlan_demo3:
  "activePlan_v3 demo3
     = Some \<lparr> id_plan3 = ''p1'', name_plan3 = ''Push Day'', exercises3 = [bench3, squat3, row3] \<rparr>"
  by (simp add: activePlan_v3_def demo3_def)

text \<open>
  With a cap of 50 a history of 40 entries would grow to 41 and a history of 50 entries
  would stay at 50. The code keeps 40 in \<open>App.tsx\<close> and lets 50 grow to 51 in the
  variant.
\<close>

theorem history_cap_is_not_50_counterexample:
  "length (history fullDemo) = 40
   \<and> length (history (finishTraining ''h1'' ''2024-02-01'' fullDemo)) = 40
   \<and> min 50 (Suc (length (history fullDemo))) = 41
   \<and> length (history3 demo3) = 50
   \<and> length (history3 (finishWorkout ''h1'' ''2024-02-01'' demo3)) = 51"
proof -
  have ne: "exercises pushDay \<noteq> []" by (simp add: pushDay_def)
  have l: "length (history fullDemo) = 40" by (simp add: fullDemo_def)
  have f: "length (history (finishTraining ''h1'' ''2024-02-01'' fullDemo))
           = min 40 (Suc (length (history fullDemo)))"
    by (simp add: finishTraining_active [OF activePlan_fullDemo ne])
  have l3: "length (history3 demo3) = 50" by (simp add: demo3_def)
  have f3: "length (history3 (finishWorkout ''h1'' ''2024-02-01'' demo3))
            = min 60 (Suc (length (history3 demo3)))"
    by (simp add: finishWorkout_history [OF activePlan_demo3])
  show ?thesis by (simp add: l f l3 f3)
qed

theorem history_append_only_capped_witness:
  "history (finishTraining ''h1'' ''2024-02-01'' demo)
     = [\<lparr> id_entry = ''h1'', dateIso = ''2024-02-01'', planId = ''p1'', planName = ''Push Day'',
          exercises_entry = map snapshot [bench, squat] \<rparr>, oldEntry]
   \<and> length (history (finishTraining ''h1'' ''2024-02-01'' demo)) = 2
   \<and> history (finishTraining ''h1'' ''2024-02-01'' (demo\<lparr>activePlanId := ''none''\<rparr>)) = [oldEntry]
   \<and> history (step (DeleteExercise ''e1'') demo) = [oldEntry]
   \<and> length (history3 (finishWorkout ''h1'' ''2024-02-01'' demo3)) = 51
   \<and> hd (history3 (finishWorkout ''h1'' ''2024-02-01'' demo3))
       = \<lparr> id_entry3 = ''h1'', dateIso3 = ''2024-02-01'', planName3 = ''Push Day'',
           exercises_entry3 = map snapshot_v3 [bench3, squat3, row3] \<rparr>"
proof -
  let ?p3 = "\<lparr> id_plan3 = ''p1'', name_plan3 = ''Push Day'', exercises3 = [bench3, squat3, row3] \<rparr>"
  note T = history_append_only_capped
             [of demo pushDay "''h1''" "''2024-02-01''" "DeleteExercise ''e1''" demo3 ?p3 "''e1''" 1]
  note U = history_append_only_capped
             [of "demo\<lparr>activePlanId := ''none''\<rparr>" pushDay "''h1''" "''2024-02-01''"
                 "DeleteExercise ''e1''" demo3 ?p3 "''e1''" 1]
  have h1: "activePlan demo = Some pushDay \<and> exercises pushDay \<noteq> []"
    by (simp add: activePlan_demo pushDay_def)
  have c1: "history (finishTraining ''h1'' ''2024-02-01'' demo)
     = [\<lparr> id_entry = ''h1'', dateIso = ''2024-02-01'', planId = ''p1'', planName = ''Push Day'',
          exercises_entry = map snapshot [bench, squat] \<rparr>, oldEntry]
     \<and> length (history (finishTraining ''h1'' ''2024-02-01'' demo)) = 2"
    using mp [OF T [THEN conjunct1] h1] by (simp add: pushDay_def demo_def)
  have h2: "activePlan (demo\<lparr>activePlanId := ''none''\<rparr>) = None
            \<or> (\<exists>p. activePlan (demo\<lparr>activePlanId := ''none''\<rparr>) = Some p \<and> exercises p = [])"
    by (simp add: activePlan_def demo_def pushDay_def legDay_def)
  have c2: "history (finishTraining ''h1'' ''2024-02-01'' (demo\<lparr>activePlanId := ''none''\<rparr>)) = [oldEntry]"
    using mp [OF U [THEN conjunct2, THEN conjunct1] h2] by (simp add: demo_def)
  have h3: "\<forall>newId now. DeleteExercise ''e1'' \<noteq> FinishTraining newId now" by simp
  have c3: "history (step (DeleteExercise ''e1'') demo) = [oldEntry]"
    using mp [OF T [THEN conjunct2, THEN conjunct2, THEN conjunct1] h3] by (simp add: demo_def)
  have h4: "activePlan_v3 demo3 = Some ?p3 \<and> exercises3 ?p3 \<noteq> []"
    by (simp add: activePlan_demo3)
  note V = mp [OF T [THEN conjunct2, THEN conjunct2, THEN conjunct2, THEN conjunct1] h4]
  have c4: "length (history3 (finishWorkout ''h1'' ''2024-02-01'' demo3)) = 51"
    using V [THEN conjunct2] by (simp add: demo3_def)
  have c5: "hd (history3 (finishWorkout ''h1'' ''2024-02-01'' demo3))
       = \<lparr> id_entry3 = ''h1'', dateIso3 = ''2024-02-01'', planName3 = ''Push Day'',
           exercises_entry3 = map snapshot_v3 [bench3, squat3, row3] \<rparr>"
    using V [THEN conjunct1] by simp
  show ?thesis
    by (intro conjI c1 [THEN conjunct1] c1 [THEN conjunct2] c2 c3 c4 c5)
qed

lemma exerciseAt_finishTraining:
  assumes "activePlan s = Some active" "exercises active \<noteq> []"
    "i < length (plans s)" "id_plan (plans s ! i) = activePlanId s"
    "j < length (exercises (plans s ! i))"
  shows "exerciseAt (finishTraining newId now s) i j = resetSets (exerciseAt s i j)"
  using assms exerciseAt_inPlan [of i s "activePlanId s" j resetSets]
  by (simp add: finishTraining_active exerciseAt_def)

lemma exercises_finishTraining:
  assumes "activePlan s = Some active" "exercises active \<noteq> []"
    "i < length (plans s)" "id_plan (plans s ! i) = activePlanId s"
  shows "exercises (plans (finishTraining newId now s) ! i) = map resetSets (exercises (plans s ! i))"
  using assms by (simp add: finishTraining_active inPlan_nth)

text \<open>
  C5. When the active plan exists and has N exercises, N at least 1, \<open>finishTraining\<close>
  puts one new entry at the head of the history (in front of the 39 most recent older
  entries), with the name of the plan and N snapshots that hold the name, the weight and
  the set counts of the exercises as they were; afterwards, in every plan that carries the
  active id, every exercise has no completed sets and the same current, best and previous
  weight as before. Without an active plan, or when the active plan has no exercise,
  \<open>finishTraining\<close> returns the state as it is.
\<close>

theorem finishTraining_records_and_resets:
  "(activePlan s = Some active \<and> exercises active \<noteq> [] \<longrightarrow>
      history (finishTraining newId now s)
        = \<lparr> id_entry = newId, dateIso = now, planId = id_plan active,
            planName = name_plan active,
            exercises_entry = map snapshot (exercises active) \<rparr> # take 39 (history s)
      \<and> planName (hd (history (finishTraining newId now s))) = name_plan active
      \<and> length (exercises_entry (hd (history (finishTraining newId now s))))
          = length (exercises active)
      \<and> (k < length (exercises active) \<longrightarrow>
          name_h (exercises_entry (hd (history (finishTraining newId now s))) ! k)
            = name_ex (exercises active ! k)
          \<and> weight (exercises_entry (hd (history (finishTraining newId now s))) ! k)
            = currentWeight (exercises active ! k)
          \<and> completedSets_h (exercises_entry (hd (history (finishTraining newId now s))) ! k)
            = completedSets (exercises active ! k)
          \<and> targetSets_h (exercises_entry (hd (history (finishTraining newId now s))) ! k)
            = targetSets (exercises active ! k))
      \<and> length (plans (finishTraining newId now s)) = length (plans s)
      \<and> (i < length (plans s) \<and> id_plan (plans s ! i) = activePlanId s \<longrightarrow>
          length (exercises (plans (finishTraining newId now s) ! i))
            = length (exercises (plans s ! i))
          \<and> (j < length (exercises (plans s ! i)) \<longrightarrow>
              completedSets (exerciseAt (finishTraining newId now s) i j) = 0
              \<and> currentWeight (exerciseAt (finishTraining newId now s) i j)
                  = currentWeight (exerciseAt s i j)
              \<and> bestWeight (exerciseAt (finishTraining newId now s) i j)
                  = bestWeight (exerciseAt s i j)
              \<and> previousWeight (exerciseAt (finishTraining newId now s) i j)
                  = previousWeight (exerciseAt s i j))))
   \<and> (activePlan s = None \<or> (\<exists>p. activePlan s = Some p \<and> exercises p = []) \<longrightarrow>
      finishTraining newId now s = s)"
proof (intro conjI impI)
  assume "activePlan s = None \<or> (\<exists>p. activePlan s = Some p \<and> exercises p = [])"
  then show "finishTraining newId now s = s" by (rule finishTraining_idle)
next
  assume h: "activePlan s = Some active \<and> exercises active \<noteq> []"
  then have ft: "finishTraining newId now s
         = (inPlan (activePlanId s) (map resetSets) s)
             \<lparr>history := \<lparr> id_entry = newId, dateIso = now, planId = id_plan active,
                            planName = name_plan active,
                            exercises_entry = map snapshot (exercises active) \<rparr>
                          # take 39 (history s)\<rparr>"
    by (simp add: finishTraining_active)
  show "history (finishTraining newId now s)
        = \<lparr> id_entry = newId, dateIso = now, planId = id_plan active,
            planName = name_plan active,
            exercises_entry = map snapshot (exercises active) \<rparr> # take 39 (history s)"
    by (simp add: ft)
  show "planName (hd (history (finishTraining newId now s))) = name_plan active"
    by (simp add: ft)
  show "length (exercises_entry (hd (history (finishTraining newId now s))))
          = length (exercises active)"
    by (simp add: ft)
  show "length (plans (finishTraining newId now s)) = length (plans s)"
    by (simp add: ft)
  {
    assume k: "k < length (exercises active)"
    then show "name_h (exercises_entry (hd (history (finishTraining newId now s))) ! k)
            = name_ex (exercises active ! k)"
      by (simp add: ft snapshot_def)
    from k show "weight (exercises_entry (hd (history (finishTraining newId now s))) ! k)
            = currentWeight (exercises active ! k)"
      by (simp add: ft snapshot_def)
    from k show "completedSets_h (exercises_entry (hd (history (finishTraining newId now s))) ! k)
            = completedSets (exercises active ! k)"
      by (simp add: ft snapshot_def)
    from k show "targetSets_h (exercises_entry (hd (history (finishTraining newId now s))) ! k)
            = targetSets (exercises active ! k)"
      by (simp add: ft snapshot_def)
  }
  {
    assume i: "i < length (plans s) \<and> id_plan (plans s ! i) = activePlanId s"
    with h show "length (exercises (plans (finishTraining newId now s) ! i))
            = length (exercises (plans s ! i))"
      by (simp add: exercises_finishTraining)
    assume j: "j < length (exercises (plans s ! i))"
    with h i have eq: "exerciseAt (finishTraining newId now s) i j = resetSets (exerciseAt s i j)"
      by (simp add: exerciseAt_finishTraining)
    show "completedSets (exerciseAt (finishTraining newId now s) i j) = 0"
      by (simp add: eq resetSets_def)
    show "currentWeight (exerciseAt (finishTraining newId now s) i j)
                  = currentWeight (exerciseAt s i j)"
      by (simp add: eq resetSets_def)
    show "bestWeight (exerciseAt (finishTraining newId now s) i j) = bestWeight (exerciseAt s i j)"
      by (simp add: eq resetSets_def)
    show "previousWeight (exerciseAt (finishTraining newId now s) i j)
                  = previousWeight (exerciseAt s i j)"
      by (simp add: eq resetSets_def)
  }
qed

theorem finishTraining_records_and_resets_witness:
  "history (finishTraining ''h1'' ''2024-02-01'' demo)
     = [\<lparr> id_entry = ''h1'', dateIso = ''2024-02-01'', planId = ''p1'', planName = ''Push Day'',
          exercises_entry = map snapshot [bench, squat] \<rparr>, oldEntry]
   \<and> planName (hd (history (finishTraining ''h1'' ''2024-02-01'' demo))) = ''Push Day''
   \<and> length (exercises_entry (hd (history (finishTraining ''h1'' ''2024-02-01'' demo)))) = 2
   \<and> name_h (exercises_entry (hd (history (finishTraining ''h1'' ''2024-02-01'' demo))) ! 0) = ''Bench''
   \<and> weight (exercises_entry (hd (history (finishTraining ''h1'' ''2024-02-01'' demo))) ! 0) = 20
   \<and> completedSets_h (exercises_entry (hd (history (finishTraining ''h1'' ''2024-02-01'' demo))) ! 0) = 2
   \<and> targetSets_h (exercises_entry (hd (history (finishTraining ''h1'' ''2024-02-01'' demo))) ! 0) = 3
   \<and> length (plans (finishTraining ''h1'' ''2024-02-01'' demo)) = 2
   \<and> length (exercises (plans (finishTraining ''h1'' ''2024-02-01'' demo) ! 0)) = 2
   \<and> completedSets (exerciseAt (finishTraining ''h1'' ''2024-02-01'' demo) 0 1) = 0
   \<and> currentWeight (exerciseAt (finishTraining ''h1'' ''2024-02-01'' demo) 0 1) = 60
   \<and> bestWeight (exerciseAt (finishTraining ''h1'' ''2024-02-01'' demo) 0 1) = 65
   \<and> previousWeight (exerciseAt (finishTraining ''h1'' ''2024-02-01'' demo) 0 1) = None
   \<and> finishTraining ''h1'' ''2024-02-01'' (demo\<lparr>activePlanId := ''none''\<rparr>)
       = demo\<lparr>activePlanId := ''none''\<rparr>
   \<and> finishTraining ''h1'' ''2024-02-01''
         \<lparr> plans = [\<lparr> id_plan = ''p3'', name_plan = ''Rest'', exercises = [] \<rparr>], history = [],
           activePlanId = ''p3'' \<rparr>
       = \<lparr> plans = [\<lparr> id_plan = ''p3'', name_plan = ''Rest'', exercises = [] \<rparr>], history = [],
           activePlanId = ''p3'' \<rparr>"
proof -
  let ?f = "finishTraining ''h1'' ''2024-02-01''"
  let ?idle = "demo\<lparr>activePlanId := ''none''\<rparr>"
  let ?rest = "\<lparr> plans = [\<lparr> id_plan = ''p3'', name_plan = ''Rest'', exercises = [] \<rparr>],
                history = [], activePlanId = ''p3'' \<rparr>"
  note T = finishTraining_records_and_resets [of demo pushDay "''h1''" "''2024-02-01''" 0 0 1]
  note U = finishTraining_records_and_resets [of ?idle pushDay "''h1''" "''2024-02-01''" 0 0 1]
  note V = finishTraining_records_and_resets [of ?rest pushDay "''h1''" "''2024-02-01''" 0 0 1]
  have h1: "activePlan demo = Some pushDay \<and> exercises pushDay \<noteq> []"
    by (simp add: activePlan_demo pushDay_def)
  note A = mp [OF T [THEN conjunct1] h1]
  have c1: "history (?f demo)
     = [\<lparr> id_entry = ''h1'', dateIso = ''2024-02-01'', planId = ''p1'', planName = ''Push Day'',
          exercises_entry = map snapshot [bench, squat] \<rparr>, oldEntry]"
    using A [THEN conjunct1] by (simp add: pushDay_def demo_def)
  have c2: "planName (hd (history (?f demo))) = ''Push Day''"
    using A [THEN conjunct2, THEN conjunct1] by (simp add: pushDay_def)
  have c3: "length (exercises_entry (hd (history (?f demo)))) = 2"
    using A [THEN conjunct2, THEN conjunct2, THEN conjunct1] by (simp add: pushDay_def)
  have k: "0 < length (exercises pushDay)" by (simp add: pushDay_def)
  note K = mp [OF A [THEN conjunct2, THEN conjunct2, THEN conjunct2, THEN conjunct1] k]
  have c4: "name_h (exercises_entry (hd (history (?f demo))) ! 0) = ''Bench''"
    using K [THEN conjunct1] by (simp add: pushDay_def bench_def)
  have c5: "weight (exercises_entry (hd (history (?f demo))) ! 0) = 20"
    using K [THEN conjunct2, THEN conjunct1] by (simp add: pushDay_def bench_def)
  have c6: "completedSets_h (exercises_entry (hd (history (?f demo))) ! 0) = 2"
    using K [THEN conjunct2, THEN conjunct2, THEN conjunct1] by (simp add: pushDay_def bench_def)
  have c7: "targetSets_h (exercises_entry (hd (history (?f demo))) ! 0) = 3"
    using K [THEN conjunct2, THEN conjunct2, THEN conjunct2] by (simp add: pushDay_def bench_def)
  note B = A [THEN conjunct2, THEN conjunct2, THEN conjunct2, THEN conjunct2]
  have c8: "length (plans (?f demo)) = 2"
    using B [THEN conjunct1] by (simp add: demo_def)
  have i: "0 < length (plans demo) \<and> id_plan (plans demo ! 0) = activePlanId demo"
    by (simp add: demo_def pushDay_def)
  note I = mp [OF B [THEN conjunct2] i]
  have c9: "length (exercises (plans (?f demo) ! 0)) = 2"
    using I [THEN conjunct1] by (simp add: demo_def pushDay_def)
  have j: "1 < length (exercises (plans demo ! 0))"
    by (simp add: demo_def pushDay_def)
  note J = mp [OF I [THEN conjunct2] j]
  have at: "exerciseAt demo 0 (Suc 0) = squat"
    by (simp add: exerciseAt_def demo_def pushDay_def)
  have c10: "completedSets (exerciseAt (?f demo) 0 1) = 0"
    by (rule J [THEN conjunct1])
  have c11: "currentWeight (exerciseAt (?f demo) 0 1) = 60"
    using J [THEN conjunct2, THEN conjunct1] by (simp add: at squat_def)
  have c12: "bestWeight (exerciseAt (?f demo) 0 1) = 65"
    using J [THEN conjunct2, THEN conjunct2, THEN conjunct1] by (simp add: at squat_def)
  have c13: "previousWeight (exerciseAt (?f demo) 0 1) = None"
    using J [THEN conjunct2, THEN conjunct2, THEN conjunct2] by (simp add: at squat_def)
  have n1: "activePlan ?idle = None \<or> (\<exists>p. activePlan ?idle = Some p \<and> exercises p = [])"
    by (simp add: activePlan_def demo_def pushDay_def legDay_def)
  have c14: "?f ?idle = ?idle"
    by (rule mp [OF U [THEN conjunct2] n1])
  have n2: "activePlan ?rest = None \<or> (\<exists>p. activePlan ?rest = Some p \<and> exercises p = [])"
    by (simp add: activePlan_def)
  have c15: "?f ?rest = ?rest"
    by (rule mp [OF V [THEN conjunct2] n2])
  show ?thesis
    by (intro conjI c1 c2 c3 c4 c5 c6 c7 c8 c9 c10 c11 c12 c13 c14 c15)
qed

lemma isPr_recorded:
  assumes "activePlan s = Some active" "exercises active \<noteq> []" "k < length (exercises active)"
  shows "isPr (exercises_entry (hd (history (finishTraining newId now s))) ! k)
         = isPrOf (exercises active ! k)"
  using assms by (simp add: finishTraining_active snapshot_def)

text \<open>
  C6. The flag \<open>isPr\<close> that \<open>finishTraining\<close> records for an exercise of the active
  plan is true exactly when the exercise has a previous weight, its current weight is at
  least its best weight and its current weight is above the previous weight. With a
  previous weight of 18 and a best weight of 20 the flag is true at a current weight of 20,
  and it is false at a current weight of 19.
\<close>

theorem isPr_at_finish:
  "(activePlan s = Some active \<and> exercises active \<noteq> [] \<and> k < length (exercises active) \<longrightarrow>
      isPr (exercises_entry (hd (history (finishTraining newId now s))) ! k)
        = (\<exists>p. previousWeight (exercises active ! k) = Some p
               \<and> bestWeight (exercises active ! k) \<le> currentWeight (exercises active ! k)
               \<and> p < currentWeight (exercises active ! k)))
   \<and> (activePlan s = Some active \<and> exercises active \<noteq> [] \<and> k < length (exercises active)
       \<and> previousWeight (exercises active ! k) = Some 18
       \<and> bestWeight (exercises active ! k) = 20
       \<and> currentWeight (exercises active ! k) = 20 \<longrightarrow>
      isPr (exercises_entry (hd (history (finishTraining newId now s))) ! k))
   \<and> (activePlan s = Some active \<and> exercises active \<noteq> [] \<and> k < length (exercises active)
       \<and> previousWeight (exercises active ! k) = Some 18
       \<and> bestWeight (exercises active ! k) = 20
       \<and> currentWeight (exercises active ! k) = 19 \<longrightarrow>
      \<not> isPr (exercises_entry (hd (history (finishTraining newId now s))) ! k))"
proof (intro conjI impI)
  assume "activePlan s = Some active \<and> exercises active \<noteq> [] \<and> k < length (exercises active)"
  then show "isPr (exercises_entry (hd (history (finishTraining newId now s))) ! k)
        = (\<exists>p. previousWeight (exercises active ! k) = Some p
               \<and> bestWeight (exercises active ! k) \<le> currentWeight (exercises active ! k)
               \<and> p < currentWeight (exercises active ! k))"
    by (simp add: isPr_recorded isPrOf_def split: option.splits)
next
  assume "activePlan s = Some active \<and> exercises active \<noteq> [] \<and> k < length (exercises active)
       \<and> previousWeight (exercises active ! k) = Some 18
       \<and> bestWeight (exercises active ! k) = 20
       \<and> currentWeight (exercises active ! k) = 20"
  then show "isPr (exercises_entry (hd (history (finishTraining newId now s))) ! k)"
    by (simp add: isPr_recorded isPrOf_def)
next
  assume "activePlan s = Some active \<and> exercises active \<noteq> [] \<and> k < length (exercises active)
       \<and> previousWeight (exercises active ! k) = Some 18
       \<and> bestWeight (exercises active ! k) = 20
       \<and> currentWeight (exercises active ! k) = 19"
  then show "\<not> isPr (exercises_entry (hd (history (finishTraining newId now s))) ! k)"
    by (simp add: isPr_recorded isPrOf_def)
qed

lemma activePlan_slipped:
  "activePlan (demo\<lparr>plans := [pushDay\<lparr>exercises := [bench\<lparr>currentWeight := 19\<rparr>]\<rparr>]\<rparr>)
     = Some (pushDay\<lparr>exercises := [bench\<lparr>currentWeight := 19\<rparr>]\<rparr>)"
  by (simp add: activePlan_def demo_def pushDay_def)

theorem isPr_at_finish_witness:
  "isPr (exercises_entry (hd (history (finishTraining ''h1'' ''2024-02-01'' demo))) ! 0)
   \<and> \<not> isPr (exercises_entry (hd (history (finishTraining ''h1'' ''2024-02-01'' demo))) ! 1)
   \<and> \<not> isPr (exercises_entry (hd (history (finishTraining ''h1'' ''2024-02-01''
            (demo\<lparr>plans := [pushDay\<lparr>exercises := [bench\<lparr>currentWeight := 19\<rparr>]\<rparr>]\<rparr>)))) ! 0)"
proof -
  let ?f = "finishTraining ''h1'' ''2024-02-01''"
  let ?p = "pushDay\<lparr>exercises := [bench\<lparr>currentWeight := 19\<rparr>]\<rparr>"
  let ?s = "demo\<lparr>plans := [?p]\<rparr>"
  note T = isPr_at_finish [of demo pushDay 0 "''h1''" "''2024-02-01''"]
  note U = isPr_at_finish [of demo pushDay 1 "''h1''" "''2024-02-01''"]
  note V = isPr_at_finish [of ?s ?p 0 "''h1''" "''2024-02-01''"]
  have h1: "activePlan demo = Some pushDay \<and> exercises pushDay \<noteq> [] \<and> 0 < length (exercises pushDay)
       \<and> previousWeight (exercises pushDay ! 0) = Some 18
       \<and> bestWeight (exercises pushDay ! 0) = 20
       \<and> currentWeight (exercises pushDay ! 0) = 20"
    by (simp add: activePlan_demo pushDay_def bench_def)
  have c1: "isPr (exercises_entry (hd (history (?f demo))) ! 0)"
    by (rule mp [OF T [THEN conjunct2, THEN conjunct1] h1])
  have h2: "activePlan demo = Some pushDay \<and> exercises pushDay \<noteq> [] \<and> 1 < length (exercises pushDay)"
    by (simp add: activePlan_demo pushDay_def)
  have c2: "\<not> isPr (exercises_entry (hd (history (?f demo))) ! 1)"
    using mp [OF U [THEN conjunct1] h2] by (simp add: pushDay_def squat_def)
  have h3b: "exercises ?p \<noteq> [] \<and> 0 < length (exercises ?p)
       \<and> previousWeight (exercises ?p ! 0) = Some 18
       \<and> bestWeight (exercises ?p ! 0) = 20
       \<and> currentWeight (exercises ?p ! 0) = 19"
    by (simp add: bench_def)
  have h3: "activePlan ?s = Some ?p \<and> exercises ?p \<noteq> [] \<and> 0 < length (exercises ?p)
       \<and> previousWeight (exercises ?p ! 0) = Some 18
       \<and> bestWeight (exercises ?p ! 0) = 20
       \<and> currentWeight (exercises ?p ! 0) = 19"
    by (rule conjI [OF activePlan_slipped h3b])
  have c3: "\<not> isPr (exercises_entry (hd (history (?f ?s))) ! 0)"
    by (rule mp [OF V [THEN conjunct2, THEN conjunct2] h3])
  show ?thesis by (intro conjI c1 c2 c3)
qed

lemma splice_move_nth:
  assumes "i < length xs" "k < length xs"
  shows "spliceInsert k (xs ! i) (spliceRemove i xs) ! k = xs ! i"
  using assms by (simp add: nth_spliceInsert length_spliceRemove)

lemma splice_move_rest:
  assumes "i < length xs" "k < length xs"
  shows "spliceRemove k (spliceInsert k (xs ! i) (spliceRemove i xs)) = spliceRemove i xs"
  using assms by (simp add: remove_spliceInsert length_spliceRemove)

lemma findIndex_nat_lt: "0 \<le> findIndex P xs \<Longrightarrow> nat (findIndex P xs) < length xs"
  using findIndex_lt [of P xs] by linarith

lemma moveIn_found:
  assumes "d \<noteq> t"
    and "0 \<le> findIndex (\<lambda>e. id_ex e = d) xs"
    and "0 \<le> findIndex (\<lambda>e. id_ex e = t) xs"
  shows "moveIn d t xs
         = spliceInsert (nat (findIndex (\<lambda>e. id_ex e = t) xs))
             (xs ! nat (findIndex (\<lambda>e. id_ex e = d) xs))
             (spliceRemove (nat (findIndex (\<lambda>e. id_ex e = d) xs)) xs)"
proof -
  have "id_ex (xs ! nat (findIndex (\<lambda>e. id_ex e = d) xs)) = d"
    using findIndex_holds [OF assms(2)] .
  moreover have "id_ex (xs ! nat (findIndex (\<lambda>e. id_ex e = t) xs)) = t"
    using findIndex_holds [OF assms(3)] .
  ultimately have "findIndex (\<lambda>e. id_ex e = d) xs \<noteq> findIndex (\<lambda>e. id_ex e = t) xs"
    using assms(1) by auto
  with assms show ?thesis by (simp add: moveIn_def Let_def)
qed

lemma moveIn_idle:
  assumes "d = t \<or> d \<notin> id_ex ` set xs \<or> t \<notin> id_ex ` set xs"
  shows "moveIn d t xs = xs"
proof -
  have "findIndex (\<lambda>e. id_ex e = d) xs < 0" if "d \<notin> id_ex ` set xs"
    using that by (auto simp: findIndex_neg_iff)
  moreover have "findIndex (\<lambda>e. id_ex e = t) xs < 0" if "t \<notin> id_ex ` set xs"
    using that by (auto simp: findIndex_neg_iff)
  ultimately show ?thesis using assms by (auto simp: moveIn_def Let_def)
qed

lemma plans_moveExercise_nth:
  assumes "i < length (plans s)"
  shows "plans (moveExercise d t s) ! i
         = (if id_plan (plans s ! i) = activePlanId s \<and> d \<noteq> t
            then (plans s ! i)\<lparr>exercises := moveIn d t (exercises (plans s ! i))\<rparr>
            else plans s ! i)"
proof (cases "activePlan s = None")
  case True
  then have "id_plan (plans s ! i) \<noteq> activePlanId s"
    using assms activePlan_None [of s "plans s ! i"] by simp
  with True show ?thesis by (simp add: shape_moveExercise)
next
  case False
  with assms show ?thesis by (auto simp: shape_moveExercise inPlan_nth)
qed

lemma activePlan_v3_id: "activePlan_v3 s = Some a \<Longrightarrow> id_plan3 a = activePlanId3 s"
  by (auto simp: activePlan_v3_def find_Some_iff)

lemma activePlan_v3_None:
  "activePlan_v3 s = None \<Longrightarrow> p \<in> set (plans3 s) \<Longrightarrow> id_plan3 p \<noteq> activePlanId3 s"
  by (auto simp: activePlan_v3_def find_None_iff)

lemma plans3_moveExerciseByOffset:
  "plans3 (moveExerciseByOffset eid off s)
   = (if activePlan_v3 s = None then plans3 s
      else map (\<lambda>plan. if id_plan3 plan = activePlanId3 s
                        then plan\<lparr>exercises3 := moveByOffsetIn eid off (exercises3 plan)\<rparr>
                        else plan) (plans3 s))"
  by (auto simp: moveExerciseByOffset_def moveByOffsetIn_def Let_def activePlan_v3_id
           split: option.splits)

lemma plans3_moveExerciseByOffset_nth:
  assumes "i < length (plans3 s)"
  shows "plans3 (moveExerciseByOffset eid off s) ! i
         = (if id_plan3 (plans3 s ! i) = activePlanId3 s
            then (plans3 s ! i)\<lparr>exercises3 := moveByOffsetIn eid off (exercises3 (plans3 s ! i))\<rparr>
            else plans3 s ! i)"
proof (cases "activePlan_v3 s = None")
  case True
  then have "id_plan3 (plans3 s ! i) \<noteq> activePlanId3 s"
    using assms activePlan_v3_None [of s "plans3 s ! i"] by simp
  with True show ?thesis by (simp add: plans3_moveExerciseByOffset)
next
  case False
  with assms show ?thesis by (auto simp: plans3_moveExerciseByOffset)
qed

lemma mset_moveByOffsetIn: "mset (moveByOffsetIn eid off xs) = mset xs"
  by (auto simp: moveByOffsetIn_def Let_def mset_splice findIndex_nat_lt)

lemma moveByOffsetIn_found:
  assumes "0 \<le> findIndex (\<lambda>e. id_ex3 e = eid) xs"
    and "0 \<le> findIndex (\<lambda>e. id_ex3 e = eid) xs + off"
    and "findIndex (\<lambda>e. id_ex3 e = eid) xs + off < int (length xs)"
  shows "moveByOffsetIn eid off xs
         = spliceInsert (nat (findIndex (\<lambda>e. id_ex3 e = eid) xs + off))
             (xs ! nat (findIndex (\<lambda>e. id_ex3 e = eid) xs))
             (spliceRemove (nat (findIndex (\<lambda>e. id_ex3 e = eid) xs)) xs)"
  using assms by (simp add: moveByOffsetIn_def Let_def)

lemma moveByOffsetIn_idle:
  assumes "eid \<notin> id_ex3 ` set xs
           \<or> findIndex (\<lambda>e. id_ex3 e = eid) xs + off < 0
           \<or> int (length xs) \<le> findIndex (\<lambda>e. id_ex3 e = eid) xs + off"
  shows "moveByOffsetIn eid off xs = xs"
proof -
  have "findIndex (\<lambda>e. id_ex3 e = eid) xs < 0" if "eid \<notin> id_ex3 ` set xs"
    using that by (auto simp: findIndex_neg_iff)
  with assms show ?thesis by (auto simp: moveByOffsetIn_def Let_def)
qed

lemma findIndex_present: "d \<in> f ` set xs \<Longrightarrow> 0 \<le> findIndex (\<lambda>e. f e = d) xs"
  using findIndex_neg_iff [of "\<lambda>e. f e = d" xs] by force

text \<open>
  C8. Reordering permutes the exercises of every plan: \<open>moveExercise\<close> (drag and drop)
  and \<open>moveExerciseByOffset\<close> (one step in the variant) keep the number of plans, and
  the exercise list of each plan afterwards has the same elements with the same
  multiplicities, so the same length. In a plan with the active id, when both ids are
  different and occur, the first exercise with the dragged id sits afterwards at the index
  where the first exercise with the anchor id was, and removing it there leaves the list
  that removing it from its old place leaves: the others are shifted and keep their order.
  The plan stays as it is when the two ids are equal or one of them does not occur. The
  offset move puts the exercise at its index plus the offset in the same way, and leaves
  the plan as it is when the id does not occur or the target index is outside the list.
\<close>

theorem reorder_is_permutation:
  fixes s :: AppState and s3 :: AppState_v3
    and i i3 :: nat and d t eid :: string and off :: int
  defines "xs \<equiv> exercises (plans s ! i)"
    and "xs' \<equiv> exercises (plans (moveExercise d t s) ! i)"
    and "fromIndex \<equiv> findIndex (\<lambda>e. id_ex e = d) (exercises (plans s ! i))"
    and "toIndex \<equiv> findIndex (\<lambda>e. id_ex e = t) (exercises (plans s ! i))"
    and "ys \<equiv> exercises3 (plans3 s3 ! i3)"
    and "ys' \<equiv> exercises3 (plans3 (moveExerciseByOffset eid off s3) ! i3)"
    and "index \<equiv> findIndex (\<lambda>e. id_ex3 e = eid) (exercises3 (plans3 s3 ! i3))"
  shows
    "length (plans (moveExercise d t s)) = length (plans s)
     \<and> (i < length (plans s) \<longrightarrow> mset xs' = mset xs \<and> length xs' = length xs)
     \<and> (i < length (plans s) \<and> id_plan (plans s ! i) = activePlanId s \<and> d \<noteq> t
         \<and> d \<in> id_ex ` set xs \<and> t \<in> id_ex ` set xs \<longrightarrow>
         id_ex (xs ! nat fromIndex) = d \<and> id_ex (xs ! nat toIndex) = t
         \<and> xs' ! nat toIndex = xs ! nat fromIndex
         \<and> spliceRemove (nat toIndex) xs' = spliceRemove (nat fromIndex) xs)
     \<and> (i < length (plans s) \<and> (d = t \<or> d \<notin> id_ex ` set xs \<or> t \<notin> id_ex ` set xs) \<longrightarrow>
         plans (moveExercise d t s) ! i = plans s ! i)
     \<and> length (plans3 (moveExerciseByOffset eid off s3)) = length (plans3 s3)
     \<and> (i3 < length (plans3 s3) \<longrightarrow> mset ys' = mset ys \<and> length ys' = length ys)
     \<and> (i3 < length (plans3 s3) \<and> id_plan3 (plans3 s3 ! i3) = activePlanId3 s3
         \<and> eid \<in> id_ex3 ` set ys \<and> 0 \<le> index + off \<and> index + off < int (length ys) \<longrightarrow>
         id_ex3 (ys ! nat index) = eid
         \<and> ys' ! nat (index + off) = ys ! nat index
         \<and> spliceRemove (nat (index + off)) ys' = spliceRemove (nat index) ys)
     \<and> (i3 < length (plans3 s3)
         \<and> (eid \<notin> id_ex3 ` set ys \<or> index + off < 0 \<or> int (length ys) \<le> index + off) \<longrightarrow>
         plans3 (moveExerciseByOffset eid off s3) ! i3 = plans3 s3 ! i3)"
proof (intro conjI impI)
  show "length (plans (moveExercise d t s)) = length (plans s)"
    by (simp add: shape_moveExercise)
  show "length (plans3 (moveExerciseByOffset eid off s3)) = length (plans3 s3)"
    by (simp add: plans3_moveExerciseByOffset)
next
  assume i: "i < length (plans s)"
  then show m: "mset xs' = mset xs"
    by (simp add: xs'_def xs_def plans_moveExercise_nth mset_moveIn)
  show "length xs' = length xs"
    using m by (rule mset_eq_length)
next
  assume h: "i < length (plans s) \<and> id_plan (plans s ! i) = activePlanId s \<and> d \<noteq> t
         \<and> d \<in> id_ex ` set xs \<and> t \<in> id_ex ` set xs"
  then have f: "0 \<le> fromIndex" and g: "0 \<le> toIndex"
    by (simp_all add: fromIndex_def toIndex_def xs_def findIndex_present)
  from f have fl: "nat fromIndex < length xs"
    unfolding fromIndex_def xs_def by (rule findIndex_nat_lt)
  from g have gl: "nat toIndex < length xs"
    unfolding toIndex_def xs_def by (rule findIndex_nat_lt)
  from h f g have eq: "xs' = spliceInsert (nat toIndex) (xs ! nat fromIndex)
                               (spliceRemove (nat fromIndex) xs)"
    by (simp add: xs'_def xs_def fromIndex_def toIndex_def plans_moveExercise_nth moveIn_found)
  show "id_ex (xs ! nat fromIndex) = d"
    using findIndex_holds [of "\<lambda>e. id_ex e = d" xs] f by (simp add: fromIndex_def xs_def)
  show "id_ex (xs ! nat toIndex) = t"
    using findIndex_holds [of "\<lambda>e. id_ex e = t" xs] g by (simp add: toIndex_def xs_def)
  show "xs' ! nat toIndex = xs ! nat fromIndex"
    unfolding eq using fl gl by (rule splice_move_nth)
  show "spliceRemove (nat toIndex) xs' = spliceRemove (nat fromIndex) xs"
    unfolding eq using fl gl by (rule splice_move_rest)
next
  assume h: "i < length (plans s) \<and> (d = t \<or> d \<notin> id_ex ` set xs \<or> t \<notin> id_ex ` set xs)"
  then have "d = t \<or> d \<notin> id_ex ` set xs \<or> t \<notin> id_ex ` set xs" by (rule conjunct2)
  then have idle: "moveIn d t (exercises (plans s ! i)) = exercises (plans s ! i)"
    unfolding xs_def by (rule moveIn_idle)
  from h have "i < length (plans s)" by (rule conjunct1)
  then show "plans (moveExercise d t s) ! i = plans s ! i"
    by (simp add: plans_moveExercise_nth idle)
next
  assume i: "i3 < length (plans3 s3)"
  then show m: "mset ys' = mset ys"
    by (simp add: ys'_def ys_def plans3_moveExerciseByOffset_nth mset_moveByOffsetIn)
  show "length ys' = length ys"
    using m by (rule mset_eq_length)
next
  assume h: "i3 < length (plans3 s3) \<and> id_plan3 (plans3 s3 ! i3) = activePlanId3 s3
         \<and> eid \<in> id_ex3 ` set ys \<and> 0 \<le> index + off \<and> index + off < int (length ys)"
  then have f: "0 \<le> index"
    by (simp add: index_def ys_def findIndex_present)
  from f have fl: "nat index < length ys"
    unfolding index_def ys_def by (rule findIndex_nat_lt)
  from h have gl: "nat (index + off) < length ys" by linarith
  from h f have eq: "ys' = spliceInsert (nat (index + off)) (ys ! nat index)
                               (spliceRemove (nat index) ys)"
    by (simp add: ys'_def ys_def index_def plans3_moveExerciseByOffset_nth moveByOffsetIn_found)
  show "id_ex3 (ys ! nat index) = eid"
    using findIndex_holds [of "\<lambda>e. id_ex3 e = eid" ys] f by (simp add: index_def ys_def)
  show "ys' ! nat (index + off) = ys ! nat index"
    unfolding eq using fl gl by (rule splice_move_nth)
  show "spliceRemove (nat (index + off)) ys' = spliceRemove (nat index) ys"
    unfolding eq using fl gl by (rule splice_move_rest)
next
  assume h: "i3 < length (plans3 s3)
         \<and> (eid \<notin> id_ex3 ` set ys \<or> index + off < 0 \<or> int (length ys) \<le> index + off)"
  then have "eid \<notin> id_ex3 ` set ys \<or> index + off < 0 \<or> int (length ys) \<le> index + off"
    by (rule conjunct2)
  then have idle: "moveByOffsetIn eid off (exercises3 (plans3 s3 ! i3)) = exercises3 (plans3 s3 ! i3)"
    unfolding ys_def index_def by (rule moveByOffsetIn_idle)
  from h have "i3 < length (plans3 s3)" by (rule conjunct1)
  then show "plans3 (moveExerciseByOffset eid off s3) ! i3 = plans3 s3 ! i3"
    by (simp add: plans3_moveExerciseByOffset_nth idle)
qed

lemma exercises_demoThree:
  "exercises (plans demoThree ! 1) = [bench, squat, row]"
  "exercises (plans demoThree ! Suc 0) = [bench, squat, row]"
  by (simp_all add: demoThree_def)

lemma exercises_demo3: "exercises3 (plans3 demo3 ! 0) = [bench3, squat3, row3]"
  by (simp add: demo3_def)

lemma ids_three: "id_ex bench = ''e1''" "id_ex squat = ''e2''" "id_ex row = ''e3''"
  by (simp_all add: bench_def squat_def row_def)

lemma ids_three3: "id_ex3 bench3 = ''e1''" "id_ex3 squat3 = ''e2''" "id_ex3 row3 = ''e3''"
  by (simp_all add: bench3_def squat3_def row3_def)

theorem reorder_is_permutation_witness:
  "length (plans (moveExercise ''e3'' ''e1'' demoThree)) = 2
   \<and> mset (exercises (plans (moveExercise ''e3'' ''e1'' demoThree) ! 1)) = mset [bench, squat, row]
   \<and> length (exercises (plans (moveExercise ''e3'' ''e1'' demoThree) ! 1)) = 3
   \<and> exercises (plans (moveExercise ''e3'' ''e1'' demoThree) ! 1) ! 0 = row
   \<and> spliceRemove 0 (exercises (plans (moveExercise ''e3'' ''e1'' demoThree) ! 1)) = [bench, squat]
   \<and> plans (moveExercise ''e3'' ''e9'' demoThree) ! 1 = plans demoThree ! 1
   \<and> length (plans3 (moveExerciseByOffset ''e1'' 1 demo3)) = 1
   \<and> mset (exercises3 (plans3 (moveExerciseByOffset ''e1'' 1 demo3) ! 0))
       = mset [bench3, squat3, row3]
   \<and> exercises3 (plans3 (moveExerciseByOffset ''e1'' 1 demo3) ! 0) ! 1 = bench3
   \<and> spliceRemove 1 (exercises3 (plans3 (moveExerciseByOffset ''e1'' 1 demo3) ! 0))
       = [squat3, row3]
   \<and> plans3 (moveExerciseByOffset ''e1'' (- 1) demo3) ! 0 = plans3 demo3 ! 0"
proof -
  note T = reorder_is_permutation [of "''e3''" "''e1''" demoThree 1 "''e1''" 1 demo3 0]
  note U = reorder_is_permutation [of "''e3''" "''e9''" demoThree 1 "''e1''" "- 1" demo3 0]
  have lp: "length (plans demoThree) = 2" by (simp add: demoThree_def)
  have lp3: "length (plans3 demo3) = 1" by (simp add: demo3_def)
  have c1: "length (plans (moveExercise ''e3'' ''e1'' demoThree)) = 2"
    using T [THEN conjunct1] by (simp add: lp)
  have i: "1 < length (plans demoThree)" by (simp add: lp)
  note A = mp [OF T [THEN conjunct2, THEN conjunct1] i]
  have c2: "mset (exercises (plans (moveExercise ''e3'' ''e1'' demoThree) ! 1))
            = mset [bench, squat, row]"
    using A [THEN conjunct1] by (simp only: exercises_demoThree)
  have c3: "length (exercises (plans (moveExercise ''e3'' ''e1'' demoThree) ! 1)) = 3"
    using A [THEN conjunct2] by (simp add: exercises_demoThree)
  have h: "1 < length (plans demoThree) \<and> id_plan (plans demoThree ! 1) = activePlanId demoThree
           \<and> ''e3'' \<noteq> ''e1''
           \<and> ''e3'' \<in> id_ex ` set (exercises (plans demoThree ! 1))
           \<and> ''e1'' \<in> id_ex ` set (exercises (plans demoThree ! 1))"
    by (simp add: lp exercises_demoThree ids_three) (simp add: demoThree_def)
  note B = mp [OF T [THEN conjunct2, THEN conjunct2, THEN conjunct1] h]
  have c4: "exercises (plans (moveExercise ''e3'' ''e1'' demoThree) ! 1) ! 0 = row"
    using B [THEN conjunct2, THEN conjunct2, THEN conjunct1]
    by (simp add: exercises_demoThree ids_three Let_def)
  have c5: "spliceRemove 0 (exercises (plans (moveExercise ''e3'' ''e1'' demoThree) ! 1))
            = [bench, squat]"
    using B [THEN conjunct2, THEN conjunct2, THEN conjunct2]
    by (simp add: exercises_demoThree ids_three Let_def spliceRemove_def)
  have h2: "1 < length (plans demoThree)
            \<and> (''e3'' = ''e9'' \<or> ''e3'' \<notin> id_ex ` set (exercises (plans demoThree ! 1))
               \<or> ''e9'' \<notin> id_ex ` set (exercises (plans demoThree ! 1)))"
    by (simp add: lp exercises_demoThree ids_three)
  have c6: "plans (moveExercise ''e3'' ''e9'' demoThree) ! 1 = plans demoThree ! 1"
    by (rule mp [OF U [THEN conjunct2, THEN conjunct2, THEN conjunct2, THEN conjunct1] h2])
  note T5 = T [THEN conjunct2, THEN conjunct2, THEN conjunct2, THEN conjunct2]
  note U5 = U [THEN conjunct2, THEN conjunct2, THEN conjunct2, THEN conjunct2]
  have c7: "length (plans3 (moveExerciseByOffset ''e1'' 1 demo3)) = 1"
    using T5 [THEN conjunct1] by (simp add: lp3)
  have i3: "0 < length (plans3 demo3)" by (simp add: lp3)
  have c8: "mset (exercises3 (plans3 (moveExerciseByOffset ''e1'' 1 demo3) ! 0))
            = mset [bench3, squat3, row3]"
    using mp [OF T5 [THEN conjunct2, THEN conjunct1] i3, THEN conjunct1]
    by (simp only: exercises_demo3)
  have h3: "0 < length (plans3 demo3) \<and> id_plan3 (plans3 demo3 ! 0) = activePlanId3 demo3
            \<and> ''e1'' \<in> id_ex3 ` set (exercises3 (plans3 demo3 ! 0))
            \<and> 0 \<le> findIndex (\<lambda>e. id_ex3 e = ''e1'') (exercises3 (plans3 demo3 ! 0)) + 1
            \<and> findIndex (\<lambda>e. id_ex3 e = ''e1'') (exercises3 (plans3 demo3 ! 0)) + 1
                < int (length (exercises3 (plans3 demo3 ! 0)))"
    by (simp add: lp3 exercises_demo3 ids_three3 Let_def) (simp add: demo3_def)
  note C = mp [OF T5 [THEN conjunct2, THEN conjunct2, THEN conjunct1] h3]
  have c9: "exercises3 (plans3 (moveExerciseByOffset ''e1'' 1 demo3) ! 0) ! 1 = bench3"
    using C [THEN conjunct2, THEN conjunct1]
    by (simp add: exercises_demo3 ids_three3 Let_def)
  have c10: "spliceRemove 1 (exercises3 (plans3 (moveExerciseByOffset ''e1'' 1 demo3) ! 0))
             = [squat3, row3]"
    using C [THEN conjunct2, THEN conjunct2]
    by (simp add: exercises_demo3 ids_three3 Let_def spliceRemove_def)
  have h4: "0 < length (plans3 demo3)
            \<and> (''e1'' \<notin> id_ex3 ` set (exercises3 (plans3 demo3 ! 0))
               \<or> findIndex (\<lambda>e. id_ex3 e = ''e1'') (exercises3 (plans3 demo3 ! 0)) + - 1 < 0
               \<or> int (length (exercises3 (plans3 demo3 ! 0)))
                   \<le> findIndex (\<lambda>e. id_ex3 e = ''e1'') (exercises3 (plans3 demo3 ! 0)) + - 1)"
    by (simp add: lp3 exercises_demo3 ids_three3 Let_def)
  have c11: "plans3 (moveExerciseByOffset ''e1'' (- 1) demo3) ! 0 = plans3 demo3 ! 0"
    by (rule mp [OF U5 [THEN conjunct2, THEN conjunct2, THEN conjunct2] h4])
  show ?thesis
    by (intro conjI c1 c2 c3 c4 c5 c6 c7 c8 c9 c10 c11)
qed

lemma othersKept_refl: "othersKept eid s s"
  by (simp add: othersKept_def list_all_iff)

lemma samePlaces_refl: "samePlaces eid s s"
  by (simp add: samePlaces_def list_all_iff)

lemma othersKept_inPlan:
  assumes "\<And>xs. filter (\<lambda>e. id_ex e \<noteq> eid) (G xs) = filter (\<lambda>e. id_ex e \<noteq> eid) xs"
  shows "othersKept eid s (inPlan (activePlanId s) G s)"
  using assms by (simp add: othersKept_def list_all_iff inPlan_nth)

lemma samePlaces_inPlan:
  assumes "\<And>e. id_ex e \<noteq> eid \<Longrightarrow> f e = e"
  shows "samePlaces eid s (inPlan a (map f) s)"
  using assms by (simp add: samePlaces_def list_all_iff inPlan_nth exerciseAt_def)

lemma filter_map_onId:
  assumes "\<And>e. id_ex (f e) = id_ex e"
  shows "filter (\<lambda>e. id_ex e \<noteq> eid) (map (onId eid f) xs) = filter (\<lambda>e. id_ex e \<noteq> eid) xs"
  using assms by (induction xs) (simp_all add: onId_def)

lemma onId_other: "id_ex e \<noteq> eid \<Longrightarrow> onId eid f e = e"
  by (simp add: onId_def)

lemma id_weightTo [simp]: "id_ex (weightTo v e) = id_ex e"
  by (simp add: weightTo_def)

lemma id_deltaStep [simp]: "id_ex (deltaStep d e) = id_ex e"
  by (simp add: deltaStep_def)

lemma id_completedTo [simp]: "id_ex (completedTo c e) = id_ex e"
  by (simp add: completedTo_def)

lemma id_setsTo [simp]: "id_ex (setsTo n e) = id_ex e"
  by (simp add: setsTo_def)

lemma id_metaTo [simp]: "id_ex (metaTo p e) = id_ex e"
  by (simp add: metaTo_def)

lemma frame_onId:
  assumes "\<And>e. id_ex (f e) = id_ex e"
  shows "othersKept eid s (inPlan (activePlanId s) (map (onId eid f)) s)
         \<and> samePlaces eid s (inPlan (activePlanId s) (map (onId eid f)) s)"
  using assms by (simp add: othersKept_inPlan filter_map_onId samePlaces_inPlan onId_other)

lemma frame_updateExerciseWeight:
  "othersKept eid s (updateExerciseWeight eid w s) \<and> samePlaces eid s (updateExerciseWeight eid w s)"
  by (simp add: shape_updateExerciseWeight frame_onId othersKept_refl samePlaces_refl
           split: option.splits)

lemma frame_changeExerciseByDelta:
  "othersKept eid s (changeExerciseByDelta eid d s) \<and> samePlaces eid s (changeExerciseByDelta eid d s)"
  by (simp add: shape_changeExerciseByDelta frame_onId othersKept_refl samePlaces_refl)

lemma frame_setExerciseCompleted:
  "othersKept eid s (setExerciseCompleted eid c s) \<and> samePlaces eid s (setExerciseCompleted eid c s)"
  by (simp add: shape_setExerciseCompleted frame_onId othersKept_refl samePlaces_refl)

lemma frame_setExerciseSets:
  "othersKept eid s (setExerciseSets eid n s) \<and> samePlaces eid s (setExerciseSets eid n s)"
  by (simp add: shape_setExerciseSets frame_onId othersKept_refl samePlaces_refl)

lemma frame_updateExerciseMeta:
  "othersKept eid s (updateExerciseMeta eid p s) \<and> samePlaces eid s (updateExerciseMeta eid p s)"
  by (simp add: shape_updateExerciseMeta frame_onId othersKept_refl samePlaces_refl)

lemma frame_deleteExercise: "othersKept eid s (deleteExercise eid s)"
  by (simp add: shape_deleteExercise othersKept_inPlan othersKept_refl)

lemma exercises_deleteExercise:
  assumes "i < length (plans s)" "id_plan (plans s ! i) = activePlanId s"
  shows "exercises (plans (deleteExercise eid s) ! i)
         = filter (\<lambda>e. id_ex e \<noteq> eid) (exercises (plans s ! i))"
proof -
  from assms obtain a where "activePlan s = Some a"
    using activePlan_exists by blast
  with assms show ?thesis by (simp add: shape_deleteExercise inPlan_nth)
qed

text \<open>
  C10. An event that names one exercise leaves the rest of the store alone.
  \<open>updateExerciseWeight\<close>, \<open>changeExerciseByDelta\<close>, \<open>setExerciseSets\<close>,
  \<open>setExerciseCompleted\<close>, \<open>updateExerciseMeta\<close> and \<open>deleteExercise\<close> keep the
  history, the selection, the number, ids and names of the plans, every plan without the
  active id, and in every plan the exercises with another id, in their order. The first
  five keep every exercise list at its length and every exercise with another id at its
  place; \<open>deleteExercise\<close> leaves in a plan with the active id exactly the exercises
  with another id, in their order.
\<close>

theorem single_exercise_events_keep_the_rest:
  "othersKept eid s (updateExerciseWeight eid w s)
   \<and> samePlaces eid s (updateExerciseWeight eid w s)
   \<and> othersKept eid s (changeExerciseByDelta eid delta s)
   \<and> samePlaces eid s (changeExerciseByDelta eid delta s)
   \<and> othersKept eid s (setExerciseSets eid n s)
   \<and> samePlaces eid s (setExerciseSets eid n s)
   \<and> othersKept eid s (setExerciseCompleted eid c s)
   \<and> samePlaces eid s (setExerciseCompleted eid c s)
   \<and> othersKept eid s (updateExerciseMeta eid patch s)
   \<and> samePlaces eid s (updateExerciseMeta eid patch s)
   \<and> othersKept eid s (deleteExercise eid s)
   \<and> (i < length (plans s) \<and> id_plan (plans s ! i) = activePlanId s \<longrightarrow>
       exercises (plans (deleteExercise eid s) ! i)
         = filter (\<lambda>e. id_ex e \<noteq> eid) (exercises (plans s ! i)))"
  using frame_updateExerciseWeight [of eid s w] frame_changeExerciseByDelta [of eid s delta]
    frame_setExerciseSets [of eid s n] frame_setExerciseCompleted [of eid s c]
    frame_updateExerciseMeta [of eid s patch] frame_deleteExercise [of eid s]
    exercises_deleteExercise [of i s eid]
  by blast

lemma othersKept_other_plan:
  assumes "othersKept eid s s'" "i < length (plans s)" "id_plan (plans s ! i) \<noteq> activePlanId s"
  shows "plans s' ! i = plans s ! i"
  using assms by (simp add: othersKept_def list_all_iff)

lemma samePlaces_other_exercise:
  assumes "samePlaces eid s s'" "i < length (plans s)" "j < length (exercises (plans s ! i))"
    "id_ex (exerciseAt s i j) \<noteq> eid"
  shows "exerciseAt s' i j = exerciseAt s i j"
  using assms by (simp add: samePlaces_def list_all_iff)

lemma demo_facts:
  "1 < length (plans demo)"
  "id_plan (plans demo ! 1) \<noteq> activePlanId demo"
  "plans demo ! 1 = legDay"
  "0 < length (plans demo)"
  "id_plan (plans demo ! 0) = activePlanId demo"
  "1 < length (exercises (plans demo ! 0))"
  "id_ex (exerciseAt demo 0 1) \<noteq> ''e1''"
  "exerciseAt demo 0 1 = squat"
  "filter (\<lambda>e. id_ex e \<noteq> ''e1'') (exercises (plans demo ! 0)) = [squat]"
  by (simp_all add: demo_def pushDay_def legDay_def exerciseAt_def bench_def squat_def)

theorem single_exercise_events_keep_the_rest_witness:
  "plans (updateExerciseWeight ''e1'' (Some 30) demo) ! 1 = legDay
   \<and> exerciseAt (updateExerciseWeight ''e1'' (Some 30) demo) 0 1 = squat
   \<and> plans (changeExerciseByDelta ''e1'' (5 / 2) demo) ! 1 = legDay
   \<and> exerciseAt (changeExerciseByDelta ''e1'' (5 / 2) demo) 0 1 = squat
   \<and> plans (setExerciseSets ''e1'' 3 demo) ! 1 = legDay
   \<and> exerciseAt (setExerciseSets ''e1'' 3 demo) 0 1 = squat
   \<and> plans (setExerciseCompleted ''e1'' True demo) ! 1 = legDay
   \<and> exerciseAt (setExerciseCompleted ''e1'' True demo) 0 1 = squat
   \<and> plans (updateExerciseMeta ''e1'' (targetPatch 5) demo) ! 1 = legDay
   \<and> exerciseAt (updateExerciseMeta ''e1'' (targetPatch 5) demo) 0 1 = squat
   \<and> plans (deleteExercise ''e1'' demo) ! 1 = legDay
   \<and> exercises (plans (deleteExercise ''e1'' demo) ! 0) = [squat]"
proof -
  note T = single_exercise_events_keep_the_rest
             [of "''e1''" demo "Some 30" "5 / 2" 3 True "targetPatch 5" 0]
  note K = othersKept_other_plan [OF _ demo_facts(1) demo_facts(2), unfolded demo_facts(3)]
  note P = samePlaces_other_exercise [OF _ demo_facts(4) demo_facts(6) demo_facts(7),
             unfolded demo_facts(8)]
  note T1 = T [THEN conjunct1]
  note T2 = T [THEN conjunct2, THEN conjunct1]
  note T3 = T [THEN conjunct2, THEN conjunct2, THEN conjunct1]
  note T4 = T [THEN conjunct2, THEN conjunct2, THEN conjunct2, THEN conjunct1]
  note R4 = T [THEN conjunct2, THEN conjunct2, THEN conjunct2, THEN conjunct2]
  note T5 = R4 [THEN conjunct1]
  note T6 = R4 [THEN conjunct2, THEN conjunct1]
  note T7 = R4 [THEN conjunct2, THEN conjunct2, THEN conjunct1]
  note T8 = R4 [THEN conjunct2, THEN conjunct2, THEN conjunct2, THEN conjunct1]
  note R8 = R4 [THEN conjunct2, THEN conjunct2, THEN conjunct2, THEN conjunct2]
  note T9 = R8 [THEN conjunct1]
  note T10 = R8 [THEN conjunct2, THEN conjunct1]
  note T11 = R8 [THEN conjunct2, THEN conjunct2, THEN conjunct1]
  note T12 = R8 [THEN conjunct2, THEN conjunct2, THEN conjunct2]
  have del: "exercises (plans (deleteExercise ''e1'' demo) ! 0) = [squat]"
    using mp [OF T12 conjI [OF demo_facts(4) demo_facts(5)]] by (simp only: demo_facts(9))
  show ?thesis
    by (intro conjI K [OF T1] P [OF T2] K [OF T3] P [OF T4] K [OF T5] P [OF T6] K [OF T7]
        P [OF T8] K [OF T9] P [OF T10] K [OF T11] del)
qed

end
